theory Spec2Isabelle
  imports Main
begin

section \<open>Strings and characters\<close>

text \<open>
  The program is TypeScript; its strings are sequences of code units. They are modelled as
  HOL strings, a \<^typ>\<open>char\<close> standing for the code unit of the same number
  (U+0000 to U+00FF). The character classes below are the ECMAScript ones restricted to that
  range.
\<close>

definition isUpper :: "char \<Rightarrow> bool" where
  "isUpper c = (let n = (of_char c :: nat) in
     (65 \<le> n \<and> n \<le> 90) \<or> (192 \<le> n \<and> n \<le> 222 \<and> n \<noteq> 215))"

definition toLowerCaseChar :: "char \<Rightarrow> char" where
  "toLowerCaseChar c = (if isUpper c then char_of ((of_char c :: nat) + 32) else c)"

definition toLowerCase :: "string \<Rightarrow> string" where
  "toLowerCase s = map toLowerCaseChar s"

text \<open>The class \<open>[a-z0-9-]\<close>.\<close>

definition isNameChar :: "char \<Rightarrow> bool" where
  "isNameChar c = (let n = (of_char c :: nat) in
     (97 \<le> n \<and> n \<le> 122) \<or> (48 \<le> n \<and> n \<le> 57) \<or> n = 45)"

text \<open>\<open>s.replace(/[^a-z0-9-]/g, '-')\<close>\<close>

definition replaceNonNameChars :: "string \<Rightarrow> string" where
  "replaceNonNameChars s = map (\<lambda>c. if isNameChar c then c else CHR ''-'') s"

text \<open>\<open>s.replace(/-+/g, '-')\<close>: every maximal run of hyphens is replaced by one hyphen.\<close>

function replaceHyphenRuns :: "string \<Rightarrow> string" where
  "replaceHyphenRuns [] = []"
| "replaceHyphenRuns (c # cs) =
     (if c = CHR ''-''
      then CHR ''-'' # replaceHyphenRuns (dropWhile (\<lambda>d. d = CHR ''-'') cs)
      else c # replaceHyphenRuns cs)"
  by pat_completeness auto
termination
  by (relation "measure length") (auto simp: le_imp_less_Suc length_dropWhile_le)

section \<open>Name normalization (models/Command.ts, models/Skill.ts, models/Agent.ts)\<close>

definition normalizeSkillName :: "string \<Rightarrow> string" where
  "normalizeSkillName name = replaceHyphenRuns (replaceNonNameChars (toLowerCase name))"

definition normalizeAgentName :: "string \<Rightarrow> string" where
  "normalizeAgentName name = replaceHyphenRuns (replaceNonNameChars (toLowerCase name))"

text \<open>\<open>normalizeCommandName\<close> first removes one leading slash, if there is one.\<close>

definition normalizeCommandName :: "string \<Rightarrow> string" where
  "normalizeCommandName name =
     (let name' = (case name of c # cs \<Rightarrow> if c = CHR ''/'' then cs else name | [] \<Rightarrow> name)
      in replaceHyphenRuns (replaceNonNameChars (toLowerCase name')))"

text \<open>
  The rule in the words of the specification: case-fold to lowercase; any character outside
  \<open>[a-z0-9-]\<close> maps to a hyphen; runs of consecutive hyphens collapse to one.
\<close>

definition spec_fold_char :: "char \<Rightarrow> char" where
  "spec_fold_char c = (let l = toLowerCaseChar c in if isNameChar l then l else CHR ''-'')"

fun spec_collapse :: "string \<Rightarrow> string" where
  "spec_collapse (c # d # cs) =
     (if c = CHR ''-'' \<and> d = CHR ''-'' then spec_collapse (d # cs)
      else c # spec_collapse (d # cs))"
| "spec_collapse cs = cs"

definition spec_normalize :: "string \<Rightarrow> string" where
  "spec_normalize s = spec_collapse (map spec_fold_char s)"

section \<open>Settings (models/ClaudeConfig.ts, models/Hook.ts, models/McpServer.ts)\<close>

datatype HookEvent = PreToolUse | PostToolUse

text \<open>
  \<open>HookDefinition\<close>: the field \<open>type\<close> is always \<open>'command'\<close> and is left out. A JavaScript
  number is modelled as an integer; an optional field as an \<open>option\<close>.
\<close>

record HookDefinition =
  command :: string
  timeout :: "int option"

record HookMatcher =
  matcher :: string
  hooks :: "HookDefinition list"

text \<open>The flattened view of one hook (interface \<open>Hook\<close>).\<close>

record Hook =
  hook_id :: string
  hook_event :: HookEvent
  hook_matcher :: string
  hook_command :: string
  hook_timeout :: "int option"

record Permissions =
  allow :: "string list"
  deny :: "string list"
  ask :: "string list"

text \<open>\<open>Partial<Permissions>\<close>: every field may be missing.\<close>

record PartialPermissions =
  allow_opt :: "string list option"
  deny_opt :: "string list option"
  ask_opt :: "string list option"

record McpServerConfig =
  mcp_command :: string
  mcp_args :: "string list"
  mcp_env :: "(string \<times> string) list option"
  mcp_autoStart :: "bool option"
  mcp_timeout :: "int option"

text \<open>The \<open>hooks\<close> object of the settings: each event's list may be missing.\<close>

record HooksSection =
  preToolUse :: "HookMatcher list option"
  postToolUse :: "HookMatcher list option"

text \<open>
  \<open>ClaudeSettings\<close>. \<open>mcpServers\<close> is a JavaScript object used as a dictionary: the
  map from its own property names to their values.
\<close>

record ClaudeSettings =
  hooks_section :: "HooksSection option"
  permissions :: "Permissions option"
  mcpServers :: "(string \<rightharpoonup> McpServerConfig) option"

record ClaudeConfig =
  settings :: ClaudeSettings
  settingsPath :: string
  claudeMdPath :: "string option"
  claudeMdContent :: "string option"
  commandsDir :: string
  skillsDir :: string
  agentsDir :: string

definition createDefaultSettings :: ClaudeSettings where
  "createDefaultSettings =
     \<lparr> hooks_section = Some \<lparr> preToolUse = Some [], postToolUse = Some [] \<rparr>,
       permissions = Some \<lparr> allow = [], deny = [], ask = [] \<rparr>,
       mcpServers = Some Map.empty \<rparr>"

definition createDefaultConfig :: "string \<Rightarrow> ClaudeConfig" where
  "createDefaultConfig basePath =
     (let claudeDir = basePath @ ''/.claude'' in
      \<lparr> settings = createDefaultSettings,
        settingsPath = claudeDir @ ''/settings.json'',
        claudeMdPath = Some (basePath @ ''/CLAUDE.md''),
        claudeMdContent = None,
        commandsDir = claudeDir @ ''/commands'',
        skillsDir = claudeDir @ ''/skills'',
        agentsDir = claudeDir @ ''/agents'' \<rparr>)"

text \<open>
  A JavaScript \<open>Set\<close> keeps its elements in insertion order, and adding an element that is
  already there changes nothing. \<open>newSet xs\<close> is \<open>[...new Set(xs)]\<close>.
\<close>

definition setAdd :: "'a list \<Rightarrow> 'a \<Rightarrow> 'a list" where
  "setAdd s x = (if x \<in> set s then s else s @ [x])"

definition newSet :: "'a list \<Rightarrow> 'a list" where
  "newSet xs = foldl setAdd [] xs"

text \<open>\<open>x || []\<close> for an optional array.\<close>

definition orEmpty :: "'a list option \<Rightarrow> 'a list" where
  "orEmpty x = (case x of None \<Rightarrow> [] | Some xs \<Rightarrow> xs)"

definition mergePermissions :: "Permissions \<Rightarrow> PartialPermissions \<Rightarrow> Permissions" where
  "mergePermissions base override =
     \<lparr> allow = newSet (allow base @ orEmpty (allow_opt override)),
       deny = newSet (deny base @ orEmpty (deny_opt override)),
       ask = newSet (ask base @ orEmpty (ask_opt override)) \<rparr>"

section \<open>Artifact codecs (models/Command.ts, models/Skill.ts, models/Agent.ts)\<close>

subsection \<open>String operations of the JavaScript library\<close>

text \<open>
  White space as \<open>String.prototype.trim\<close> and the regular-expression class \<open>\s\<close> see
  it (tab, line feed, vertical tab, form feed, carriage return, space, no-break space), and
  the line terminators that the regular-expression dot does not match.
\<close>

definition isWhiteSpace :: "char \<Rightarrow> bool" where
  "isWhiteSpace c = (let n = (of_char c :: nat) in (9 \<le> n \<and> n \<le> 13) \<or> n = 32 \<or> n = 160)"

definition isLineTerminator :: "char \<Rightarrow> bool" where
  "isLineTerminator c = (let n = (of_char c :: nat) in n = 10 \<or> n = 13)"

definition trim :: "string \<Rightarrow> string" where
  "trim s = rev (dropWhile isWhiteSpace (rev (dropWhile isWhiteSpace s)))"

definition startsWith :: "string \<Rightarrow> string \<Rightarrow> bool" where
  "startsWith s p = (take (length p) s = p)"

text \<open>\<open>s.split(d)\<close> for a separator of one character: never empty, \<open>''.split(d) = ['']\<close>.\<close>

fun split :: "char \<Rightarrow> string \<Rightarrow> string list" where
  "split d [] = [[]]"
| "split d (c # cs) =
     (if c = d then [] # split d cs
      else (case split d cs of w # ws \<Rightarrow> (c # w) # ws | [] \<Rightarrow> [[c]]))"

text \<open>\<open>xs.join(sep)\<close>\<close>

fun join :: "string \<Rightarrow> string list \<Rightarrow> string" where
  "join sep [] = []"
| "join sep [x] = x"
| "join sep (x # y # ys) = x @ sep @ join sep (y # ys)"

text \<open>\<open>s.replace(p, r)\<close> with a string pattern: only the first occurrence is replaced.\<close>

fun replaceFirst :: "string \<Rightarrow> string \<Rightarrow> string \<Rightarrow> string" where
  "replaceFirst p r [] = (if p = [] then r else [])"
| "replaceFirst p r (c # cs) =
     (if startsWith (c # cs) p then r @ drop (length p) (c # cs)
      else c # replaceFirst p r cs)"

text \<open>\<open>x || d\<close> for an optional string: the empty string is falsy.\<close>

definition orElse :: "string option \<Rightarrow> string \<Rightarrow> string" where
  "orElse x d = (case x of None \<Rightarrow> d | Some v \<Rightarrow> if v = [] then d else v)"

subsection \<open>The frontmatter\<close>

text \<open>
  \<open>content.match(/^---\n([\s\S]*?)\n---\n([\s\S]*)$/)\<close>: the text starts with \<open>---\n\<close> (\<open>\n\<close> is written \<open>\<newline>\<close> below); the
  first group is lazy, so it ends at the first \<open>\n---\n\<close> that follows; the second group is
  the rest of the text. \<open>findSeparator\<close> looks for that first occurrence.
\<close>

fun findSeparator :: "string \<Rightarrow> (string \<times> string) option" where
  "findSeparator [] = None"
| "findSeparator (c # cs) =
     (if startsWith (c # cs) ''\<newline>---\<newline>''
      then Some ([], drop 5 (c # cs))
      else (case findSeparator cs of None \<Rightarrow> None | Some (f, b) \<Rightarrow> Some (c # f, b)))"

definition matchFrontmatter :: "string \<Rightarrow> (string \<times> string) option" where
  "matchFrontmatter content =
     (if startsWith content ''---\<newline>''
      then findSeparator (drop 4 content) else None)"

text \<open>
  \<open>line.match(/^([^:]+):\s*(.*)$/)\<close>: the key is the text before the first colon and is not
  empty; white space after the colon is skipped; the value is the rest of the line, which the
  dot matches only when it holds no line terminator.
\<close>

definition matchLine :: "string \<Rightarrow> (string \<times> string) option" where
  "matchLine line =
     (let key = takeWhile (\<lambda>c. c \<noteq> CHR '':'') line;
          rest = dropWhile (\<lambda>c. c \<noteq> CHR '':'') line
      in if key = [] \<or> rest = [] then None
         else (let v = dropWhile isWhiteSpace (tl rest)
               in if list_ex isLineTerminator v then None else Some (key, v)))"

text \<open>
  The loop over the lines of the frontmatter fills the dictionary \<open>metadata\<close>; a later line
  with the same key overwrites an earlier one.
\<close>

definition addLine :: "(string \<rightharpoonup> string) \<Rightarrow> string \<Rightarrow> (string \<rightharpoonup> string)" where
  "addLine metadata line =
     (case matchLine line of
        None \<Rightarrow> metadata
      | Some (k, v) \<Rightarrow> metadata(trim k \<mapsto> trim v))"

definition parseFrontmatter :: "string \<Rightarrow> (string \<rightharpoonup> string)" where
  "parseFrontmatter frontmatter = foldl addLine Map.empty (split CHR ''\<newline>'' frontmatter)"

text \<open>\<open>filePath.split('/').pop()?.replace('.md', '') || ''\<close>\<close>

definition popReplaceMd :: "string \<Rightarrow> string" where
  "popReplaceMd filePath = replaceFirst ''.md'' [] (last (split CHR ''/'' filePath))"

text \<open>\<open>filePath.split('/').slice(-2, -1)[0] || ''\<close>: the segment before the last one.\<close>

definition sliceParent :: "string \<Rightarrow> string" where
  "sliceParent filePath =
     (let segs = split CHR ''/'' filePath
      in if length segs < 2 then [] else segs ! (length segs - 2))"

subsection \<open>Command\<close>

record Command =
  cmd_name :: string
  cmd_description :: string
  cmd_argumentHint :: "string option"
  cmd_content :: string
  cmd_filePath :: string

definition commandToMarkdown :: "Command \<Rightarrow> string" where
  "commandToMarkdown c =
     join ''\<newline>''
       ([''---'', ''description: '' @ cmd_description c]
        @ (case cmd_argumentHint c of
             None \<Rightarrow> []
           | Some h \<Rightarrow> if h = [] then [] else [''argument-hint: '' @ h])
        @ [''---'', []])
     @ cmd_content c"

definition parseCommandMarkdown :: "string \<Rightarrow> string \<Rightarrow> Command option" where
  "parseCommandMarkdown content filePath =
     (case matchFrontmatter content of
        None \<Rightarrow> None
      | Some (frontmatter, body) \<Rightarrow>
          (let metadata = parseFrontmatter frontmatter;
               name = popReplaceMd filePath
           in Some \<lparr> cmd_name = name,
                     cmd_description = orElse (metadata ''description'') [],
                     cmd_argumentHint = metadata ''argument-hint'',
                     cmd_content = trim body,
                     cmd_filePath = filePath \<rparr>))"

subsection \<open>Skill\<close>

text \<open>
  The type \<open>SkillModel\<close> is a union of four string literals; the parser casts the header
  value without checking it, so the field holds a string.
\<close>

record Skill =
  skill_name :: string
  skill_description :: string
  skill_tools :: "string list"
  skill_model :: string
  skill_content :: string
  skill_filePath :: string

definition skillToMarkdown :: "Skill \<Rightarrow> string" where
  "skillToMarkdown s =
     join ''\<newline>''
       ([''---'', ''name: '' @ skill_name s, ''description: '' @ skill_description s]
        @ (if length (skill_tools s) > 0 then [''tools: '' @ join '', '' (skill_tools s)] else [])
        @ (if skill_model s \<noteq> ''inherit'' then [''model: '' @ skill_model s] else [])
        @ [''---'', []])
     @ skill_content s"

definition parseTools :: "string option \<Rightarrow> string list" where
  "parseTools x =
     (case x of
        None \<Rightarrow> []
      | Some v \<Rightarrow> if v = [] then [] else map trim (split CHR '','' v))"

definition parseSkillMarkdown :: "string \<Rightarrow> string \<Rightarrow> Skill option" where
  "parseSkillMarkdown content filePath =
     (case matchFrontmatter content of
        None \<Rightarrow> None
      | Some (frontmatter, body) \<Rightarrow>
          (let metadata = parseFrontmatter frontmatter;
               name = orElse (metadata ''name'') (sliceParent filePath)
           in Some \<lparr> skill_name = name,
                     skill_description = orElse (metadata ''description'') [],
                     skill_tools = parseTools (metadata ''tools''),
                     skill_model = orElse (metadata ''model'') ''inherit'',
                     skill_content = trim body,
                     skill_filePath = filePath \<rparr>))"

subsection \<open>Agent\<close>

record Agent =
  agent_name :: string
  agent_description :: string
  agent_tools :: "string list"
  agent_model :: string
  agent_content :: string
  agent_filePath :: string

definition agentToMarkdown :: "Agent \<Rightarrow> string" where
  "agentToMarkdown a =
     join ''\<newline>''
       ([''---'', ''name: '' @ agent_name a, ''description: '' @ agent_description a]
        @ (if length (agent_tools a) > 0 then [''tools: '' @ join '', '' (agent_tools a)] else [])
        @ (if agent_model a \<noteq> ''inherit'' then [''model: '' @ agent_model a] else [])
        @ [''---'', []])
     @ agent_content a"

definition parseAgentMarkdown :: "string \<Rightarrow> string \<Rightarrow> Agent option" where
  "parseAgentMarkdown content filePath =
     (case matchFrontmatter content of
        None \<Rightarrow> None
      | Some (frontmatter, body) \<Rightarrow>
          (let metadata = parseFrontmatter frontmatter;
               name = orElse (metadata ''name'') (popReplaceMd filePath)
           in Some \<lparr> agent_name = name,
                     agent_description = orElse (metadata ''description'') [],
                     agent_tools = parseTools (metadata ''tools''),
                     agent_model = orElse (metadata ''model'') ''inherit'',
                     agent_content = trim body,
                     agent_filePath = filePath \<rparr>))"

section \<open>The configuration store (services/ClaudeConfigService.ts)\<close>

subsection \<open>The files under one project root\<close>

text \<open>
  The service reads and writes the files of one project root \<open>basePath\<close>:
  \<open>.claude/settings.json\<close>, \<open>CLAUDE.md\<close>, \<open>.claude/commands/*.md\<close>,
  \<open>.claude/skills/*/SKILL.md\<close> and \<open>.claude/agents/*.md\<close>. The state of these files is a
  record. The text of \<open>settings.json\<close> is kept as what \<open>JSON.parse\<close> makes of it: a settings
  value (\<open>JSON.parse (JSON.stringify s)\<close> is \<open>s\<close>), or \<open>Unparsable\<close> when \<open>JSON.parse\<close>
  throws. A directory is the list of its entries, \<open>None\<close> when the directory does not exist;
  \<open>.claude/commands\<close> and \<open>.claude/agents\<close> hold files only, \<open>.claude/skills\<close> holds
  sub-directories only, each listed with the text of its \<open>SKILL.md\<close> if it has one. Other
  files and directories, under the root or outside it, are not part of the state.
\<close>

datatype SettingsFile = Json ClaudeSettings | Unparsable

record FileSystem =
  claudeDir :: bool
  settingsJson :: "SettingsFile option"
  claudeMd :: "string option"
  commandsFiles :: "(string \<times> string) list option"
  skillsEntries :: "(string \<times> string option) list option"
  agentsFiles :: "(string \<times> string) list option"

text \<open>
  The store: the files, and the configurations passed to \<open>_onConfigChanged.fire\<close> so far,
  oldest first. Subscribers run inside \<open>fire\<close>, so an entry of the list is a notification
  delivered before the call that made it returns.
\<close>

record Store =
  files :: FileSystem
  fired :: "ClaudeConfig list"

text \<open>
  The errors thrown: \<open>Error('No workspace folder open')\<close>, \<open>Error('Command ... not found')\<close>,
  and the error of \<open>fs.writeFileSync\<close> for a path whose parent is not an existing directory
  (\<open>ENOENT\<close>, or \<open>ENOTDIR\<close> when a file is in the way).
\<close>

datatype Error = NoWorkspaceFolder | CommandNotFound string | CannotWrite string

text \<open>
  The outcome of a call that may stop after it has changed the files: it returns a value, or
  throws, and in both cases leaves a store. \<open>OutsideModel\<close> is the outcome of a call whose
  effect depends on files that are not part of the state; nothing is said about such a call.
\<close>

datatype 'a Outcome = Returned 'a Store | Thrown Error Store | OutsideModel

definition fire :: "ClaudeConfig \<Rightarrow> Store \<Rightarrow> Store" where
  "fire config w = w\<lparr> fired := fired w @ [config] \<rparr>"

text \<open>
  \<open>fs.readdirSync\<close> returns the names sorted (by code unit, in the range modelled).
\<close>

fun nameLess :: "string \<Rightarrow> string \<Rightarrow> bool" where
  "nameLess [] [] = False"
| "nameLess [] (y # ys) = True"
| "nameLess (x # xs) [] = False"
| "nameLess (x # xs) (y # ys) =
     ((of_char x :: nat) < of_char y \<or> (x = y \<and> nameLess xs ys))"

fun insertSorted :: "(string \<times> 'a) \<Rightarrow> (string \<times> 'a) list \<Rightarrow> (string \<times> 'a) list" where
  "insertSorted e [] = [e]"
| "insertSorted e (f # fs) =
     (if nameLess (fst e) (fst f) then e # f # fs else f # insertSorted e fs)"

definition readdirSync :: "(string \<times> 'a) list \<Rightarrow> (string \<times> 'a) list" where
  "readdirSync entries = foldr insertSorted entries []"

text \<open>
  A name that is one plain path segment, and one that is a path of several plain segments.
  \<open>path.join\<close> keeps such a name as it is; it rewrites a name with an empty, \<open>.\<close> or
  \<open>..\<close> segment, which may then lead anywhere.
\<close>

definition plainSegment :: "string \<Rightarrow> bool" where
  "plainSegment s = (s \<noteq> [] \<and> s \<noteq> ''.'' \<and> s \<noteq> ''..''
                     \<and> CHR ''/'' \<notin> set s \<and> CHR 0x00 \<notin> set s)"

definition plainPath :: "string \<Rightarrow> bool" where
  "plainPath name = (CHR ''/'' \<in> set name \<and> list_all plainSegment (split CHR ''/'' name))"

text \<open>\<open>fs.writeFileSync\<close> into a directory listing: an existing entry is replaced.\<close>

fun writeEntry :: "string \<Rightarrow> 'a \<Rightarrow> (string \<times> 'a) list \<Rightarrow> (string \<times> 'a) list" where
  "writeEntry k v [] = [(k, v)]"
| "writeEntry k v ((k', v') # es) =
     (if k' = k then (k, v) # es else (k', v') # writeEntry k v es)"

definition endsWith :: "string \<Rightarrow> string \<Rightarrow> bool" where
  "endsWith s p = (length p \<le> length s \<and> drop (length s - length p) s = p)"

text \<open>\<open>xs.find(p)\<close>\<close>

fun findFirst :: "('a \<Rightarrow> bool) \<Rightarrow> 'a list \<Rightarrow> 'a option" where
  "findFirst p [] = None"
| "findFirst p (x # xs) = (if p x then Some x else findFirst p xs)"

subsection \<open>Configuration loading\<close>

definition loadConfig :: "string \<Rightarrow> FileSystem \<Rightarrow> ClaudeConfig" where
  "loadConfig basePath fs =
     (createDefaultConfig basePath)
       \<lparr> settings := (case settingsJson fs of
                        Some (Json s) \<Rightarrow> s
                      | _ \<Rightarrow> createDefaultSettings),
         claudeMdContent := claudeMd fs \<rparr>"

text \<open>
  \<open>getConfig('project', projectPath)\<close>; \<open>basePath\<close> stands for
  \<open>projectPath || this.getWorkspacePath()\<close>, and the empty string is falsy. Every method below
  asks for the project scope.
\<close>

definition getConfig :: "string \<Rightarrow> Store \<Rightarrow> Error + ClaudeConfig" where
  "getConfig basePath w =
     (if basePath = [] then Inl NoWorkspaceFolder else Inr (loadConfig basePath (files w)))"

definition saveSettings :: "ClaudeSettings \<Rightarrow> string \<Rightarrow> Store \<Rightarrow> Error + Store" where
  "saveSettings s basePath w =
     (if basePath = [] then Inl NoWorkspaceFolder
      else (let fs' = (files w)\<lparr> claudeDir := True, settingsJson := Some (Json s) \<rparr>;
                config = loadConfig basePath fs'
            in Inr (fire config (w\<lparr> files := fs' \<rparr>))))"

subsection \<open>Hooks\<close>

definition eventName :: "HookEvent \<Rightarrow> string" where
  "eventName e = (case e of PreToolUse \<Rightarrow> ''PreToolUse'' | PostToolUse \<Rightarrow> ''PostToolUse'')"

definition eventHooks :: "HookEvent \<Rightarrow> HooksSection \<Rightarrow> HookMatcher list option" where
  "eventHooks e h = (case e of PreToolUse \<Rightarrow> preToolUse h | PostToolUse \<Rightarrow> postToolUse h)"

definition setEventHooks :: "HookEvent \<Rightarrow> HookMatcher list \<Rightarrow> HooksSection \<Rightarrow> HooksSection" where
  "setEventHooks e ms h =
     (case e of PreToolUse \<Rightarrow> h\<lparr> preToolUse := Some ms \<rparr>
              | PostToolUse \<Rightarrow> h\<lparr> postToolUse := Some ms \<rparr>)"

text \<open>The inner function \<open>processHooks\<close> of \<open>getHooks\<close>, returning the hooks it pushes.\<close>

definition processHooks :: "HookEvent \<Rightarrow> HookMatcher list option \<Rightarrow> Hook list" where
  "processHooks e matchers =
     (case matchers of
        None \<Rightarrow> []
      | Some ms \<Rightarrow>
          concat (map (\<lambda>m. map (\<lambda>d.
            \<lparr> hook_id = eventName e @ ''-'' @ matcher m @ ''-'' @ command d,
              hook_event = e, hook_matcher = matcher m,
              hook_command = command d, hook_timeout = timeout d \<rparr>) (hooks m)) ms))"

definition getHooks :: "HookEvent option \<Rightarrow> string \<Rightarrow> Store \<Rightarrow> Error + Hook list" where
  "getHooks eventFilter basePath w =
     (case getConfig basePath w of
        Inl err \<Rightarrow> Inl err
      | Inr config \<Rightarrow>
          (let h = hooks_section (settings config);
               pre = (if eventFilter = None \<or> eventFilter = Some PreToolUse
                      then processHooks PreToolUse (case h of None \<Rightarrow> None | Some x \<Rightarrow> preToolUse x)
                      else []);
               post = (if eventFilter = None \<or> eventFilter = Some PostToolUse
                       then processHooks PostToolUse (case h of None \<Rightarrow> None | Some x \<Rightarrow> postToolUse x)
                       else [])
           in Inr (pre @ post)))"

text \<open>
  The argument \<open>hookDef\<close> of \<open>addHook\<close>. The object written to the settings holds the
  timeout only when it is truthy (\<open>...(hookDef.timeout && { timeout: hookDef.timeout })\<close>).
\<close>

record HookInput =
  in_matcher :: string
  in_command :: string
  in_timeout :: "int option"

definition hookDefinitionOf :: "HookInput \<Rightarrow> HookDefinition" where
  "hookDefinitionOf i =
     \<lparr> command = in_command i,
       timeout = (case in_timeout i of None \<Rightarrow> None | Some n \<Rightarrow> if n = 0 then None else Some n) \<rparr>"

text \<open>
  \<open>createHook\<close>: the identifier is built from \<open>Date.now()\<close> and \<open>Math.random()\<close>; the text
  they contribute is the argument \<open>unique\<close>.
\<close>

definition createHook :: "HookEvent \<Rightarrow> string \<Rightarrow> string \<Rightarrow> int option \<Rightarrow> string \<Rightarrow> Hook" where
  "createHook e m c t unique =
     \<lparr> hook_id = eventName e @ ''-'' @ unique, hook_event = e, hook_matcher = m,
       hook_command = c, hook_timeout = t \<rparr>"

text \<open>\<open>existingMatcher.hooks.push(d)\<close> on the first group whose matcher is \<open>m\<close>.\<close>

fun pushToExisting :: "string \<Rightarrow> HookDefinition \<Rightarrow> HookMatcher list \<Rightarrow> HookMatcher list" where
  "pushToExisting m d [] = []"
| "pushToExisting m d (g # gs) =
     (if matcher g = m then g\<lparr> hooks := hooks g @ [d] \<rparr> # gs else g # pushToExisting m d gs)"

definition addHookSettings :: "HookEvent \<Rightarrow> HookInput \<Rightarrow> ClaudeSettings \<Rightarrow> ClaudeSettings" where
  "addHookSettings e i s =
     (let h = (case hooks_section s of
                 None \<Rightarrow> \<lparr> preToolUse = Some [], postToolUse = Some [] \<rparr>
               | Some x \<Rightarrow> x);
          ms = (case eventHooks e h of None \<Rightarrow> [] | Some x \<Rightarrow> x);
          d = hookDefinitionOf i;
          ms' = (case findFirst (\<lambda>g. matcher g = in_matcher i) ms of
                   Some existingMatcher \<Rightarrow> pushToExisting (in_matcher i) d ms
                 | None \<Rightarrow> ms @ [\<lparr> matcher = in_matcher i, hooks = [d] \<rparr>])
      in s\<lparr> hooks_section := Some (setEventHooks e ms' h) \<rparr>)"

definition addHook ::
  "HookEvent \<Rightarrow> HookInput \<Rightarrow> string \<Rightarrow> string \<Rightarrow> Store \<Rightarrow> Error + (Hook \<times> Store)" where
  "addHook e i unique basePath w =
     (case getConfig basePath w of
        Inl err \<Rightarrow> Inl err
      | Inr config \<Rightarrow>
          (let newHook = createHook e (in_matcher i) (in_command i) (in_timeout i) unique
           in (case saveSettings (addHookSettings e i (settings config)) basePath w of
                 Inl err \<Rightarrow> Inl err
               | Inr w' \<Rightarrow> Inr (newHook, w'))))"

text \<open>
  \<open>deleteHook\<close>: the loop over the groups filters the actions of every group whose matcher
  is that of the hook found; then the groups without actions are dropped.
\<close>

definition deleteHookMatchers :: "Hook \<Rightarrow> HookMatcher list \<Rightarrow> HookMatcher list" where
  "deleteHookMatchers hookToDelete matchers =
     filter (\<lambda>m. length (hooks m) > 0)
       (map (\<lambda>m. if matcher m = hook_matcher hookToDelete
                 then m\<lparr> hooks := filter (\<lambda>h. command h \<noteq> hook_command hookToDelete) (hooks m) \<rparr>
                 else m) matchers)"

definition deleteHook :: "HookEvent \<Rightarrow> string \<Rightarrow> string \<Rightarrow> Store \<Rightarrow> Error + Store" where
  "deleteHook e hookId basePath w =
     (case getConfig basePath w of
        Inl err \<Rightarrow> Inl err
      | Inr config \<Rightarrow>
          (case getHooks (Some e) basePath w of
             Inl err \<Rightarrow> Inl err
           | Inr hs \<Rightarrow>
               (case (findFirst (\<lambda>h. hook_id h = hookId) hs, hooks_section (settings config)) of
                  (Some hookToDelete, Some section) \<Rightarrow>
                    (case eventHooks e section of
                       None \<Rightarrow> Inr w
                     | Some matchers \<Rightarrow>
                         saveSettings
                           ((settings config)\<lparr> hooks_section :=
                              Some (setEventHooks e (deleteHookMatchers hookToDelete matchers) section) \<rparr>)
                           basePath w)
                | _ \<Rightarrow> Inr w)))"

subsection \<open>Permissions\<close>

datatype PermissionType = Allow | Deny | Ask

definition bucket :: "PermissionType \<Rightarrow> Permissions \<Rightarrow> string list" where
  "bucket t p = (case t of Allow \<Rightarrow> allow p | Deny \<Rightarrow> deny p | Ask \<Rightarrow> ask p)"

definition setBucket :: "PermissionType \<Rightarrow> string list \<Rightarrow> Permissions \<Rightarrow> Permissions" where
  "setBucket t rs p =
     (case t of Allow \<Rightarrow> p\<lparr> allow := rs \<rparr> | Deny \<Rightarrow> p\<lparr> deny := rs \<rparr> | Ask \<Rightarrow> p\<lparr> ask := rs \<rparr>)"

definition getPermissions :: "string \<Rightarrow> Store \<Rightarrow> Error + Permissions" where
  "getPermissions basePath w =
     (case getConfig basePath w of
        Inl err \<Rightarrow> Inl err
      | Inr config \<Rightarrow>
          Inr (case permissions (settings config) of
                 None \<Rightarrow> \<lparr> allow = [], deny = [], ask = [] \<rparr>
               | Some p \<Rightarrow> p))"

definition setPermissions :: "Permissions \<Rightarrow> string \<Rightarrow> Store \<Rightarrow> Error + Store" where
  "setPermissions p basePath w =
     (case getConfig basePath w of
        Inl err \<Rightarrow> Inl err
      | Inr config \<Rightarrow> saveSettings ((settings config)\<lparr> permissions := Some p \<rparr>) basePath w)"

definition addPermission :: "PermissionType \<Rightarrow> string \<Rightarrow> string \<Rightarrow> Store \<Rightarrow> Error + Store" where
  "addPermission t rule basePath w =
     (case getConfig basePath w of
        Inl err \<Rightarrow> Inl err
      | Inr config \<Rightarrow>
          (let p = (case permissions (settings config) of
                      None \<Rightarrow> \<lparr> allow = [], deny = [], ask = [] \<rparr>
                    | Some p \<Rightarrow> p);
               p' = (if rule \<in> set (bucket t p) then p else setBucket t (bucket t p @ [rule]) p)
           in saveSettings ((settings config)\<lparr> permissions := Some p' \<rparr>) basePath w))"

definition removePermission :: "PermissionType \<Rightarrow> string \<Rightarrow> string \<Rightarrow> Store \<Rightarrow> Error + Store" where
  "removePermission t rule basePath w =
     (case getConfig basePath w of
        Inl err \<Rightarrow> Inl err
      | Inr config \<Rightarrow>
          (let s = settings config;
               s' = (case permissions s of
                       None \<Rightarrow> s
                     | Some p \<Rightarrow>
                         s\<lparr> permissions := Some (setBucket t (filter (\<lambda>r. r \<noteq> rule) (bucket t p)) p) \<rparr>)
           in saveSettings s' basePath w))"

subsection \<open>Commands\<close>

text \<open>
  \<open>path.join(dir, file)\<close> is \<open>dir/file\<close> when the directory is a normalized path, as the
  directories of the configuration are, and the file is a path of plain segments.
\<close>

definition pathJoin :: "string \<Rightarrow> string \<Rightarrow> string" where
  "pathJoin dir file = dir @ ''/'' @ file"

definition getCommands :: "string \<Rightarrow> Store \<Rightarrow> Error + Command list" where
  "getCommands basePath w =
     (case getConfig basePath w of
        Inl err \<Rightarrow> Inl err
      | Inr config \<Rightarrow>
          (case commandsFiles (files w) of
             None \<Rightarrow> Inr []
           | Some entries \<Rightarrow>
               Inr (concat (map (\<lambda>(file, content).
                      if \<not> endsWith file ''.md'' then []
                      else (case parseCommandMarkdown content (pathJoin (commandsDir config) file) of
                              None \<Rightarrow> []
                            | Some cmd \<Rightarrow> [cmd])) (readdirSync entries)))))"

text \<open>
  \<open>createCommand\<close> creates the directory if it is missing and then writes
  \<open>path.join(commandsDir, name + '.md')\<close>. A name without a slash names a file of the
  directory. A name that is a path of plain segments names a file in a sub-directory, which does
  not exist, so the write throws, after the directory was created and before anything is
  fired. The service neither normalizes the name nor looks for an existing file.
\<close>

definition createCommand ::
  "string \<Rightarrow> string \<Rightarrow> string \<Rightarrow> string option \<Rightarrow> string \<Rightarrow> Store \<Rightarrow> Command Outcome" where
  "createCommand name description content argumentHint basePath w =
     (case getConfig basePath w of
        Inl err \<Rightarrow> Thrown err w
      | Inr config \<Rightarrow>
          (let fs1 = (if commandsFiles (files w) = None
                      then (files w)\<lparr> claudeDir := True, commandsFiles := Some [] \<rparr>
                      else files w);
               filePath = pathJoin (commandsDir config) (name @ ''.md'');
               cmd = \<lparr> cmd_name = name, cmd_description = description,
                       cmd_argumentHint = argumentHint, cmd_content = content,
                       cmd_filePath = filePath \<rparr>;
               fileContent = commandToMarkdown cmd
           in if CHR ''/'' \<notin> set name \<and> CHR 0x00 \<notin> set name
              then (let fs2 = fs1\<lparr> commandsFiles :=
                              Some (writeEntry (name @ ''.md'') fileContent
                                      (orEmpty (commandsFiles fs1))) \<rparr>
                    in Returned cmd (fire config (w\<lparr> files := fs2 \<rparr>)))
              else if plainPath name
              then Thrown (CannotWrite filePath) (w\<lparr> files := fs1 \<rparr>)
              else OutsideModel))"

text \<open>\<open>Partial<Command>\<close>, for \<open>updateCommand\<close>; \<open>{ ...existing, ...updates }\<close>.\<close>

record CommandUpdates =
  upd_name :: "string option"
  upd_description :: "string option"
  upd_argumentHint :: "string option option"
  upd_content :: "string option"
  upd_filePath :: "string option"

definition applyUpdates :: "Command \<Rightarrow> CommandUpdates \<Rightarrow> Command" where
  "applyUpdates existing u =
     \<lparr> cmd_name = (case upd_name u of None \<Rightarrow> cmd_name existing | Some x \<Rightarrow> x),
       cmd_description = (case upd_description u of None \<Rightarrow> cmd_description existing | Some x \<Rightarrow> x),
       cmd_argumentHint = (case upd_argumentHint u of None \<Rightarrow> cmd_argumentHint existing | Some x \<Rightarrow> x),
       cmd_content = (case upd_content u of None \<Rightarrow> cmd_content existing | Some x \<Rightarrow> x),
       cmd_filePath = (case upd_filePath u of None \<Rightarrow> cmd_filePath existing | Some x \<Rightarrow> x) \<rparr>"

text \<open>Writing to, testing and removing the entry of a directory that a path names.\<close>

definition writePath :: "string \<Rightarrow> string \<Rightarrow> string \<Rightarrow> (string \<times> string) list \<Rightarrow> (string \<times> string) list" where
  "writePath dir path content entries =
     map (\<lambda>(file, old). if pathJoin dir file = path then (file, content) else (file, old)) entries"

definition existsPath :: "string \<Rightarrow> string \<Rightarrow> (string \<times> 'a) list \<Rightarrow> bool" where
  "existsPath dir path entries = list_ex (\<lambda>(file, x). pathJoin dir file = path) entries"

definition unlinkPath :: "string \<Rightarrow> string \<Rightarrow> (string \<times> 'a) list \<Rightarrow> (string \<times> 'a) list" where
  "unlinkPath dir path entries = filter (\<lambda>(file, x). pathJoin dir file \<noteq> path) entries"

definition updateCommand :: "string \<Rightarrow> CommandUpdates \<Rightarrow> string \<Rightarrow> Store \<Rightarrow> Error + Store" where
  "updateCommand name updates basePath w =
     (case getCommands basePath w of
        Inl err \<Rightarrow> Inl err
      | Inr commands \<Rightarrow>
          (case findFirst (\<lambda>c. cmd_name c = name) commands of
             None \<Rightarrow> Inl (CommandNotFound name)
           | Some existing \<Rightarrow>
               (let content = commandToMarkdown (applyUpdates existing updates);
                    dir = commandsDir (createDefaultConfig basePath);
                    fs' = (files w)\<lparr> commandsFiles :=
                            Some (writePath dir (cmd_filePath existing) content
                                    (orEmpty (commandsFiles (files w)))) \<rparr>;
                    w' = w\<lparr> files := fs' \<rparr>
                in (case getConfig basePath w' of
                      Inl err \<Rightarrow> Inl err
                    | Inr config \<Rightarrow> Inr (fire config w')))))"

definition deleteCommand :: "string \<Rightarrow> string \<Rightarrow> Store \<Rightarrow> Error + Store" where
  "deleteCommand name basePath w =
     (case getCommands basePath w of
        Inl err \<Rightarrow> Inl err
      | Inr commands \<Rightarrow>
          (let dir = commandsDir (createDefaultConfig basePath);
               entries = orEmpty (commandsFiles (files w))
           in (case findFirst (\<lambda>c. cmd_name c = name) commands of
                 None \<Rightarrow> Inr w
               | Some cmd \<Rightarrow>
                   if existsPath dir (cmd_filePath cmd) entries
                   then (let w' = w\<lparr> files := (files w)\<lparr> commandsFiles :=
                                      Some (unlinkPath dir (cmd_filePath cmd) entries) \<rparr> \<rparr>
                         in (case getConfig basePath w' of
                               Inl err \<Rightarrow> Inl err
                             | Inr config \<Rightarrow> Inr (fire config w')))
                   else Inr w)))"

subsection \<open>Skills\<close>

definition getSkills :: "string \<Rightarrow> Store \<Rightarrow> Error + Skill list" where
  "getSkills basePath w =
     (case getConfig basePath w of
        Inl err \<Rightarrow> Inl err
      | Inr config \<Rightarrow>
          (case skillsEntries (files w) of
             None \<Rightarrow> Inr []
           | Some dirs \<Rightarrow>
               Inr (concat (map (\<lambda>(dir, skillMd).
                      (case skillMd of
                         None \<Rightarrow> []
                       | Some content \<Rightarrow>
                           (case parseSkillMarkdown content
                                   (pathJoin (pathJoin (skillsDir config) dir) ''SKILL.md'') of
                              None \<Rightarrow> []
                            | Some skill \<Rightarrow> [skill]))) (readdirSync dirs)))))"

text \<open>
  \<open>createSkill\<close> creates the directory of the skill, with the directories above it, and
  writes its \<open>SKILL.md\<close>. Only a name that is one plain segment names a sub-directory of
  \<open>.claude/skills\<close>.
\<close>

definition createSkill ::
  "string \<Rightarrow> string \<Rightarrow> string \<Rightarrow> string list \<Rightarrow> string \<Rightarrow> string \<Rightarrow> Store \<Rightarrow> Skill Outcome" where
  "createSkill name description content tools model basePath w =
     (case getConfig basePath w of
        Inl err \<Rightarrow> Thrown err w
      | Inr config \<Rightarrow>
          (let skillDir = pathJoin (skillsDir config) name;
               fs1 = (if skillsEntries (files w) = None
                      then (files w)\<lparr> claudeDir := True, skillsEntries := Some [] \<rparr>
                      else files w);
               filePath = pathJoin skillDir ''SKILL.md'';
               skill = \<lparr> skill_name = name, skill_description = description, skill_tools = tools,
                         skill_model = model, skill_content = content, skill_filePath = filePath \<rparr>;
               fileContent = skillToMarkdown skill
           in if plainSegment name
              then (let fs2 = fs1\<lparr> skillsEntries :=
                              Some (writeEntry name (Some fileContent)
                                      (orEmpty (skillsEntries fs1))) \<rparr>
                    in Returned skill (fire config (w\<lparr> files := fs2 \<rparr>)))
              else OutsideModel))"

text \<open>\<open>deleteSkill\<close> removes the directory \<open>path.dirname(skill.filePath)\<close>.\<close>

definition deleteSkill :: "string \<Rightarrow> string \<Rightarrow> Store \<Rightarrow> Error + Store" where
  "deleteSkill name basePath w =
     (case getSkills basePath w of
        Inl err \<Rightarrow> Inl err
      | Inr skills \<Rightarrow>
          (let dir = skillsDir (createDefaultConfig basePath);
               entries = orEmpty (skillsEntries (files w));
               skillMdOf = (\<lambda>d. pathJoin (pathJoin dir d) ''SKILL.md'')
           in (case findFirst (\<lambda>s. skill_name s = name) skills of
                 None \<Rightarrow> Inr w
               | Some skill \<Rightarrow>
                   if list_ex (\<lambda>(d, x). skillMdOf d = skill_filePath skill) entries
                   then (let w' = w\<lparr> files := (files w)\<lparr> skillsEntries :=
                                      Some (filter (\<lambda>(d, x). skillMdOf d \<noteq> skill_filePath skill)
                                              entries) \<rparr> \<rparr>
                         in (case getConfig basePath w' of
                               Inl err \<Rightarrow> Inl err
                             | Inr config \<Rightarrow> Inr (fire config w')))
                   else Inr w)))"

subsection \<open>Agents\<close>

definition getAgents :: "string \<Rightarrow> Store \<Rightarrow> Error + Agent list" where
  "getAgents basePath w =
     (case getConfig basePath w of
        Inl err \<Rightarrow> Inl err
      | Inr config \<Rightarrow>
          (case agentsFiles (files w) of
             None \<Rightarrow> Inr []
           | Some entries \<Rightarrow>
               Inr (concat (map (\<lambda>(file, content).
                      if \<not> endsWith file ''.md'' then []
                      else (case parseAgentMarkdown content (pathJoin (agentsDir config) file) of
                              None \<Rightarrow> []
                            | Some agent \<Rightarrow> [agent])) (readdirSync entries)))))"

definition createAgent ::
  "string \<Rightarrow> string \<Rightarrow> string \<Rightarrow> string list \<Rightarrow> string \<Rightarrow> string \<Rightarrow> Store \<Rightarrow> Agent Outcome" where
  "createAgent name description content tools model basePath w =
     (case getConfig basePath w of
        Inl err \<Rightarrow> Thrown err w
      | Inr config \<Rightarrow>
          (let fs1 = (if agentsFiles (files w) = None
                      then (files w)\<lparr> claudeDir := True, agentsFiles := Some [] \<rparr>
                      else files w);
               filePath = pathJoin (agentsDir config) (name @ ''.md'');
               agent = \<lparr> agent_name = name, agent_description = description, agent_tools = tools,
                         agent_model = model, agent_content = content, agent_filePath = filePath \<rparr>;
               fileContent = agentToMarkdown agent
           in if CHR ''/'' \<notin> set name \<and> CHR 0x00 \<notin> set name
              then (let fs2 = fs1\<lparr> agentsFiles :=
                              Some (writeEntry (name @ ''.md'') fileContent
                                      (orEmpty (agentsFiles fs1))) \<rparr>
                    in Returned agent (fire config (w\<lparr> files := fs2 \<rparr>)))
              else if plainPath name
              then Thrown (CannotWrite filePath) (w\<lparr> files := fs1 \<rparr>)
              else OutsideModel))"

definition deleteAgent :: "string \<Rightarrow> string \<Rightarrow> Store \<Rightarrow> Error + Store" where
  "deleteAgent name basePath w =
     (case getAgents basePath w of
        Inl err \<Rightarrow> Inl err
      | Inr agents \<Rightarrow>
          (let dir = agentsDir (createDefaultConfig basePath);
               entries = orEmpty (agentsFiles (files w))
           in (case findFirst (\<lambda>a. agent_name a = name) agents of
                 None \<Rightarrow> Inr w
               | Some agent \<Rightarrow>
                   if existsPath dir (agent_filePath agent) entries
                   then (let w' = w\<lparr> files := (files w)\<lparr> agentsFiles :=
                                      Some (unlinkPath dir (agent_filePath agent) entries) \<rparr> \<rparr>
                         in (case getConfig basePath w' of
                               Inl err \<Rightarrow> Inl err
                             | Inr config \<Rightarrow> Inr (fire config w')))
                   else Inr w)))"

subsection \<open>MCP servers, CLAUDE.md, initialization\<close>

text \<open>
  The property names that every object inherits from \<open>Object.prototype\<close>. Reading one of
  them from the dictionary gives a truthy value even when the dictionary has no such server,
  and assigning to \<open>__proto__\<close> adds no property unless the dictionary has one of that name.
\<close>

definition objectPrototypeKeys :: "string list" where
  "objectPrototypeKeys =
     [''constructor'', ''__defineGetter__'', ''__defineSetter__'', ''hasOwnProperty'',
      ''__lookupGetter__'', ''__lookupSetter__'', ''isPrototypeOf'', ''propertyIsEnumerable'',
      ''toString'', ''valueOf'', ''__proto__'', ''toLocaleString'']"

definition addMcpServer :: "string \<Rightarrow> McpServerConfig \<Rightarrow> string \<Rightarrow> Store \<Rightarrow> Error + Store" where
  "addMcpServer server serverConfig basePath w =
     (case getConfig basePath w of
        Inl err \<Rightarrow> Inl err
      | Inr config \<Rightarrow>
          (let servers = (case mcpServers (settings config) of None \<Rightarrow> Map.empty | Some m \<Rightarrow> m);
               servers' = (if server = ''__proto__'' \<and> servers server = None then servers
                           else servers(server \<mapsto> serverConfig))
           in saveSettings ((settings config)\<lparr> mcpServers := Some servers' \<rparr>) basePath w))"

definition removeMcpServer :: "string \<Rightarrow> string \<Rightarrow> Store \<Rightarrow> Error + Store" where
  "removeMcpServer server basePath w =
     (case getConfig basePath w of
        Inl err \<Rightarrow> Inl err
      | Inr config \<Rightarrow>
          (case mcpServers (settings config) of
             None \<Rightarrow> Inr w
           | Some servers \<Rightarrow>
               if servers server \<noteq> None \<or> server \<in> set objectPrototypeKeys
               then saveSettings
                      ((settings config)\<lparr> mcpServers := Some (servers(server := None)) \<rparr>)
                      basePath w
               else Inr w))"

definition saveClaudeMd :: "string \<Rightarrow> string \<Rightarrow> Store \<Rightarrow> Error + Store" where
  "saveClaudeMd content basePath w =
     (if basePath = [] then Inl NoWorkspaceFolder
      else (let fs' = (files w)\<lparr> claudeMd := Some content \<rparr>;
                config = loadConfig basePath fs'
            in Inr (fire config (w\<lparr> files := fs' \<rparr>))))"

text \<open>
  \<open>initializeClaudeConfig\<close> creates the missing directories, writes the default
  \<open>settings.json\<close> if there is none, and fires the configuration it built with
  \<open>createDefaultConfig\<close>.
\<close>

definition initializeClaudeConfig :: "string \<Rightarrow> Store \<Rightarrow> Error + Store" where
  "initializeClaudeConfig basePath w =
     (if basePath = [] then Inl NoWorkspaceFolder
      else (let config = createDefaultConfig basePath;
                fs = files w;
                fs' = fs\<lparr> claudeDir := True,
                          commandsFiles := Some (orEmpty (commandsFiles fs)),
                          skillsEntries := Some (orEmpty (skillsEntries fs)),
                          agentsFiles := Some (orEmpty (agentsFiles fs)),
                          settingsJson := (case settingsJson fs of
                                             None \<Rightarrow> Some (Json createDefaultSettings)
                                           | Some x \<Rightarrow> Some x) \<rparr>
            in Inr (fire config (w\<lparr> files := fs' \<rparr>))))"

subsection \<open>Call sequences and observations used in the statements\<close>

text \<open>A caller making one \<open>addHook\<close> call after the other, stopping at the first failure.\<close>

fun addHooks :: "HookEvent \<Rightarrow> (HookInput \<times> string) list \<Rightarrow> string \<Rightarrow> Store \<Rightarrow> Error + Store" where
  "addHooks e [] basePath w = Inr w"
| "addHooks e ((i, unique) # calls) basePath w =
     (case addHook e i unique basePath w of
        Inl err \<Rightarrow> Inl err
      | Inr (h, w') \<Rightarrow> addHooks e calls basePath w')"

text \<open>The settings a read of the store returns, and the groups they hold for an event.\<close>

definition currentSettings :: "string \<Rightarrow> Store \<Rightarrow> ClaudeSettings" where
  "currentSettings basePath w = settings (loadConfig basePath (files w))"

definition matcherGroups :: "HookEvent \<Rightarrow> ClaudeSettings \<Rightarrow> HookMatcher list" where
  "matcherGroups e s =
     (case hooks_section s of
        None \<Rightarrow> []
      | Some h \<Rightarrow> (case eventHooks e h of None \<Rightarrow> [] | Some ms \<Rightarrow> ms))"

text \<open>A project root without any configuration file, and nothing notified yet.\<close>

definition emptyProject :: Store where
  "emptyProject =
     \<lparr> files = \<lparr> claudeDir = False, settingsJson = None, claudeMd = None,
                  commandsFiles = None, skillsEntries = None, agentsFiles = None \<rparr>,
       fired = [] \<rparr>"

text \<open>A project whose settings hold two groups of hooks for \<open>PreToolUse\<close>.\<close>

definition hookedProject :: Store where
  "hookedProject =
     emptyProject\<lparr> files := (files emptyProject)
       \<lparr> claudeDir := True,
         settingsJson := Some (Json
           \<lparr> hooks_section = Some
               \<lparr> preToolUse = Some
                   [\<lparr> matcher = ''Edit'',
                      hooks = [\<lparr> command = ''lint'', timeout = None \<rparr>,
                               \<lparr> command = ''fmt'', timeout = Some 10 \<rparr>] \<rparr>,
                    \<lparr> matcher = ''Write'', hooks = [\<lparr> command = ''lint'', timeout = None \<rparr>] \<rparr>],
                 postToolUse = Some [] \<rparr>,
             permissions = None, mcpServers = None \<rparr>) \<rparr> \<rparr>"

text \<open>
  One notification was raised between two states of the store, and it carries the
  configuration that a load from the files of the later state returns.
\<close>

definition raisedOne :: "string \<Rightarrow> Store \<Rightarrow> Store \<Rightarrow> bool" where
  "raisedOne basePath w w' = (fired w' = fired w @ [loadConfig basePath (files w')])"

text \<open>A project root that holds a \<open>CLAUDE.md\<close> and no \<open>.claude\<close> directory.\<close>

definition projectWithClaudeMd :: Store where
  "projectWithClaudeMd = emptyProject\<lparr> files := (files emptyProject)\<lparr> claudeMd := Some ''# Notes'' \<rparr> \<rparr>"

text \<open>Two Skill records: one that survives the round trip, one whose content ends with a newline.\<close>

definition exampleSkill :: Skill where
  "exampleSkill =
     \<lparr> skill_name = ''api-docs'', skill_description = ''Docs: all endpoints'',
       skill_tools = [''Read'', ''Edit''], skill_model = ''inherit'',
       skill_content = ''# API\<newline>Use this.'',
       skill_filePath = ''/p/.claude/skills/api-docs/SKILL.md'' \<rparr>"

definition newlineSkill :: Skill where
  "newlineSkill = exampleSkill\<lparr> skill_content := ''# API\<newline>Use this.\<newline>'' \<rparr>"

text \<open>\<open>occursIn p s\<close>: the string \<open>p\<close> occurs somewhere in \<open>s\<close>.\<close>

fun occursIn :: "string \<Rightarrow> string \<Rightarrow> bool" where
  "occursIn p [] = (p = [])"
| "occursIn p (c # cs) = (startsWith (c # cs) p \<or> occursIn p cs)"

subsection \<open>Records that survive encoding and decoding\<close>

text \<open>
  A header value that a header line gives back unchanged: no white space at either end and no
  line terminator inside.
\<close>

definition headerValue :: "string \<Rightarrow> bool" where
  "headerValue v = (trim v = v \<and> \<not> list_ex isLineTerminator v)"

text \<open>
  A Command is written without its name and path, so the name has to be the one the decoder
  derives from the path. An argument hint is present and non-empty, or missing. The content has
  no white space at either end.
\<close>

definition validCommand :: "Command \<Rightarrow> bool" where
  "validCommand c =
     (headerValue (cmd_description c)
      \<and> (case cmd_argumentHint c of None \<Rightarrow> True | Some h \<Rightarrow> h \<noteq> [] \<and> headerValue h)
      \<and> trim (cmd_content c) = cmd_content c
      \<and> cmd_name c = popReplaceMd (cmd_filePath c))"

definition validTool :: "string \<Rightarrow> bool" where
  "validTool t = (t \<noteq> [] \<and> headerValue t \<and> CHR '','' \<notin> set t)"

definition validModel :: "string \<Rightarrow> bool" where
  "validModel m = (m \<in> set [''inherit'', ''haiku'', ''sonnet'', ''opus''])"

definition validSkill :: "Skill \<Rightarrow> bool" where
  "validSkill s =
     (skill_name s \<noteq> [] \<and> headerValue (skill_name s)
      \<and> headerValue (skill_description s)
      \<and> list_all validTool (skill_tools s)
      \<and> validModel (skill_model s)
      \<and> trim (skill_content s) = skill_content s)"

definition validAgent :: "Agent \<Rightarrow> bool" where
  "validAgent a =
     (agent_name a \<noteq> [] \<and> headerValue (agent_name a)
      \<and> headerValue (agent_description a)
      \<and> list_all validTool (agent_tools a)
      \<and> validModel (agent_model a)
      \<and> trim (agent_content a) = agent_content a)"

section \<open>Properties of name normalization\<close>

lemmas norm_eval = normalizeCommandName_def normalizeSkillName_def normalizeAgentName_def
  toLowerCase_def toLowerCaseChar_def isUpper_def replaceNonNameChars_def isNameChar_def
  char_of_def Let_def bit_Suc_0_iff

lemma spec_collapse_hyphen:
  "spec_collapse (CHR ''-'' # cs) = CHR ''-'' # spec_collapse (dropWhile (\<lambda>d. d = CHR ''-'') cs)"
proof (induction cs)
  case Nil
  show ?case by simp
next
  case (Cons d cs)
  show ?case
  proof (cases "d = CHR ''-''")
    case True
    then show ?thesis using Cons.IH by simp
  next
    case False
    then show ?thesis by simp
  qed
qed

lemma spec_collapse_other:
  "c \<noteq> CHR ''-'' \<Longrightarrow> spec_collapse (c # cs) = c # spec_collapse cs"
  by (cases cs) simp_all

lemma replaceHyphenRuns_spec: "replaceHyphenRuns s = spec_collapse s"
proof (induction s rule: replaceHyphenRuns.induct)
  case 1
  show ?case by simp
next
  case (2 c cs)
  show ?case
  proof (cases "c = CHR ''-''")
    case True
    then show ?thesis using 2(1) by (simp add: spec_collapse_hyphen)
  next
    case False
    then show ?thesis using 2(2) by (simp add: spec_collapse_other)
  qed
qed

lemma fold_chars_spec: "replaceNonNameChars (toLowerCase s) = map spec_fold_char s"
  by (simp add: replaceNonNameChars_def toLowerCase_def spec_fold_char_def Let_def)

lemma code_normalize_spec:
  "replaceHyphenRuns (replaceNonNameChars (toLowerCase s)) = spec_normalize s"
  by (simp add: replaceHyphenRuns_spec fold_chars_spec spec_normalize_def)

lemma isNameChar_not_upper: "isNameChar c \<Longrightarrow> \<not> isUpper c"
  by (auto simp: isNameChar_def isUpper_def Let_def)

lemma isNameChar_hyphen: "isNameChar CHR ''-''"
  by (simp add: isNameChar_def)

lemma spec_fold_char_name: "isNameChar (spec_fold_char c)"
  by (simp add: spec_fold_char_def Let_def isNameChar_hyphen)

lemma spec_fold_char_fix: "isNameChar c \<Longrightarrow> spec_fold_char c = c"
  by (simp add: spec_fold_char_def Let_def toLowerCaseChar_def isNameChar_not_upper)

lemma spec_collapse_subset: "set (spec_collapse s) \<subseteq> set s"
  by (induction s rule: spec_collapse.induct) auto

lemma dropWhile_collapse_start:
  assumes "xs = [] \<or> hd xs \<noteq> CHR ''-''"
  shows "dropWhile (\<lambda>d. d = CHR ''-'') (spec_collapse xs) = spec_collapse xs"
proof (cases xs)
  case Nil
  then show ?thesis by simp
next
  case (Cons e es)
  then have "e \<noteq> CHR ''-''" using assms by simp
  then show ?thesis using Cons by (simp add: spec_collapse_other)
qed

lemma spec_collapse_idem: "spec_collapse (spec_collapse s) = spec_collapse s"
proof (induction s rule: replaceHyphenRuns.induct)
  case 1
  show ?case by simp
next
  case (2 c cs)
  show ?case
  proof (cases "c = CHR ''-''")
    case True
    have "dropWhile (\<lambda>d. d = CHR ''-'') (spec_collapse (dropWhile (\<lambda>d. d = CHR ''-'') cs))
          = spec_collapse (dropWhile (\<lambda>d. d = CHR ''-'') cs)"
    proof (rule dropWhile_collapse_start)
      show "dropWhile (\<lambda>d. d = CHR ''-'') cs = []
            \<or> hd (dropWhile (\<lambda>d. d = CHR ''-'') cs) \<noteq> CHR ''-''"
        using hd_dropWhile[of "\<lambda>d. d = CHR ''-''" cs] by blast
    qed
    then show ?thesis using True 2(1) by (simp add: spec_collapse_hyphen)
  next
    case False
    then show ?thesis using 2(2) by (simp add: spec_collapse_other)
  qed
qed

lemma spec_normalize_name_chars: "c \<in> set (spec_normalize s) \<Longrightarrow> isNameChar c"
  using spec_collapse_subset[of "map spec_fold_char s"]
  by (auto simp: spec_normalize_def spec_fold_char_name)

lemma spec_normalize_idem: "spec_normalize (spec_normalize s) = spec_normalize s"
proof -
  have "map spec_fold_char (spec_normalize s) = spec_normalize s"
    by (simp add: map_idI spec_fold_char_fix spec_normalize_name_chars)
  then show ?thesis
    using spec_collapse_idem by (simp add: spec_normalize_def)
qed

lemma spec_normalize_no_slash: "spec_normalize s \<noteq> CHR ''/'' # cs"
proof
  assume "spec_normalize s = CHR ''/'' # cs"
  then have "CHR ''/'' \<in> set (spec_normalize s)" by simp
  then have "isNameChar CHR ''/''" by (rule spec_normalize_name_chars)
  then show False by (simp add: isNameChar_def)
qed

lemma normalizeSkillName_spec: "normalizeSkillName s = spec_normalize s"
  by (simp add: normalizeSkillName_def code_normalize_spec)

lemma normalizeAgentName_spec: "normalizeAgentName s = spec_normalize s"
  by (simp add: normalizeAgentName_def code_normalize_spec)

lemma normalizeCommandName_slash: "normalizeCommandName (CHR ''/'' # cs) = spec_normalize cs"
  by (simp add: normalizeCommandName_def code_normalize_spec)

lemma normalizeCommandName_no_slash:
  "(\<forall>cs. s \<noteq> CHR ''/'' # cs) \<Longrightarrow> normalizeCommandName s = spec_normalize s"
  by (cases s) (auto simp: normalizeCommandName_def code_normalize_spec)

text \<open>
  Claim C4, as stated, fails: the three normalization functions do not agree on every input.
  \<open>normalizeCommandName\<close> drops a leading slash before applying the rule, the other two
  turn it into a hyphen.
\<close>

theorem normalize_shared_counterexample:
  "normalizeCommandName ''/foo'' = ''foo'' \<and> normalizeSkillName ''/foo'' = ''-foo''
   \<and> normalizeAgentName ''/foo'' = ''-foo''
   \<and> normalizeCommandName ''/foo'' \<noteq> normalizeSkillName ''/foo''"
  by (simp add: norm_eval)

text \<open>
  Claim C4, amended: \<open>normalizeSkillName\<close> and \<open>normalizeAgentName\<close> are the rule of the
  specification on every input (lowercase, every character outside \<open>[a-z0-9-]\<close> replaced by
  a hyphen, runs of hyphens collapsed); \<open>normalizeCommandName\<close> is that rule applied after
  one leading slash has been removed, so it agrees with the other two on every input that
  does not start with a slash.
\<close>

theorem normalize_shared_rule:
  "normalizeSkillName s = spec_normalize s
   \<and> normalizeAgentName s = spec_normalize s
   \<and> normalizeCommandName (CHR ''/'' # cs) = spec_normalize cs
   \<and> ((\<forall>cs. s \<noteq> CHR ''/'' # cs) \<longrightarrow>
        normalizeCommandName s = spec_normalize s
        \<and> normalizeCommandName s = normalizeSkillName s
        \<and> normalizeCommandName s = normalizeAgentName s)"
  by (simp add: normalizeSkillName_spec normalizeAgentName_spec normalizeCommandName_slash
      normalizeCommandName_no_slash)

theorem normalize_shared_rule_witness:
  "(\<forall>cs. ''My Cmd'' \<noteq> CHR ''/'' # cs)
   \<and> normalizeCommandName ''My Cmd'' = spec_normalize ''My Cmd''
   \<and> normalizeCommandName ''My Cmd'' = ''my-cmd''
   \<and> normalizeSkillName ''My Cmd'' = ''my-cmd''
   \<and> normalizeCommandName ''/My Cmd'' = spec_normalize ''My Cmd''"
proof -
  have ev: "normalizeCommandName ''My Cmd'' = ''my-cmd''" "normalizeSkillName ''My Cmd'' = ''my-cmd''"
    by (simp_all add: norm_eval)
  have "\<forall>cs. ''My Cmd'' \<noteq> CHR ''/'' # cs" by simp
  with normalize_shared_rule [of "''My Cmd''" "''My Cmd''"] ev show ?thesis by simp
qed

text \<open>
  Claim C9: name normalization is idempotent, for each of the three normalization
  functions: normalizing a normalized name gives the same name.
\<close>

theorem normalize_idempotent:
  "normalizeCommandName (normalizeCommandName s) = normalizeCommandName s
   \<and> normalizeSkillName (normalizeSkillName s) = normalizeSkillName s
   \<and> normalizeAgentName (normalizeAgentName s) = normalizeAgentName s"
proof -
  have cmd: "normalizeCommandName (spec_normalize t) = spec_normalize t" for t
    by (simp add: normalizeCommandName_no_slash spec_normalize_no_slash spec_normalize_idem)
  have "normalizeCommandName (normalizeCommandName s) = normalizeCommandName s"
  proof (cases "\<exists>cs. s = CHR ''/'' # cs")
    case True
    then show ?thesis by (auto simp: normalizeCommandName_slash cmd)
  next
    case False
    then show ?thesis by (simp add: normalizeCommandName_no_slash cmd)
  qed
  then show ?thesis
    by (simp add: normalizeSkillName_spec normalizeAgentName_spec spec_normalize_idem)
qed

theorem normalize_idempotent_witness:
  "normalizeCommandName (normalizeCommandName ''//API  Docs!'') = ''-api-docs-''
   \<and> normalizeSkillName (normalizeSkillName ''API  Docs!'') = ''api-docs-''"
proof -
  have ev: "normalizeCommandName ''//API  Docs!'' = ''-api-docs-''"
    "normalizeSkillName ''API  Docs!'' = ''api-docs-''"
    by (simp_all add: norm_eval)
  from normalize_idempotent [of "''//API  Docs!''"] normalize_idempotent [of "''API  Docs!''"]
  show ?thesis by (simp only: ev)
qed

section \<open>Merging permissions\<close>

lemma foldl_setAdd:
  "foldl setAdd acc xs = acc @ filter (\<lambda>x. x \<notin> set acc) (foldl setAdd [] xs)"
proof (induction xs arbitrary: acc)
  case Nil
  show ?case by simp
next
  case (Cons x xs)
  let ?N = "foldl setAdd [] xs"
  have e: "setAdd [] x = [x]" by (simp add: setAdd_def)
  have one: "foldl setAdd [] (x # xs) = x # filter (\<lambda>y. y \<noteq> x) ?N"
    using Cons.IH[of "[x]"] by (simp add: e)
  have "foldl setAdd acc (x # xs)
        = acc @ filter (\<lambda>y. y \<notin> set acc) (x # filter (\<lambda>y. y \<noteq> x) ?N)"
  proof (cases "x \<in> set acc")
    case True
    then have a: "setAdd acc x = acc" by (simp add: setAdd_def)
    have "filter (\<lambda>y. y \<notin> set acc) (filter (\<lambda>y. y \<noteq> x) ?N)
          = filter (\<lambda>y. y \<notin> set acc) ?N"
      using True by (auto intro: filter_cong)
    then show ?thesis
      using True Cons.IH[of acc] by (simp add: a)
  next
    case False
    then have a: "setAdd acc x = acc @ [x]" by (simp add: setAdd_def)
    have "filter (\<lambda>y. y \<notin> set (acc @ [x])) ?N
          = filter (\<lambda>y. y \<notin> set acc) (filter (\<lambda>y. y \<noteq> x) ?N)"
      by (auto intro: filter_cong)
    then show ?thesis
      using False Cons.IH[of "acc @ [x]"] by (simp add: a)
  qed
  then show ?case by (simp only: one)
qed

lemma newSet_Nil: "newSet [] = []"
  by (simp add: newSet_def)

lemma newSet_Cons: "newSet (x # xs) = x # filter (\<lambda>y. y \<noteq> x) (newSet xs)"
proof -
  have "setAdd [] x = [x]" by (simp add: setAdd_def)
  then show ?thesis using foldl_setAdd[of "[x]" xs] by (simp add: newSet_def)
qed

lemma set_newSet: "set (newSet xs) = set xs"
  by (induction xs) (auto simp: newSet_Nil newSet_Cons)

lemma distinct_newSet: "distinct (newSet xs)"
  by (induction xs) (auto simp: newSet_Nil newSet_Cons)

lemma newSet_distinct: "distinct xs \<Longrightarrow> newSet xs = xs"
proof (induction xs)
  case Nil
  show ?case by (simp add: newSet_Nil)
next
  case (Cons x xs)
  then have "filter (\<lambda>y. y \<noteq> x) xs = xs" by (auto intro: filter_True)
  with Cons show ?case by (simp add: newSet_Cons)
qed

lemma newSet_append:
  "newSet (xs @ ys) = newSet xs @ filter (\<lambda>y. y \<notin> set xs) (newSet ys)"
proof (induction xs)
  case Nil
  show ?case by (simp add: newSet_Nil)
next
  case (Cons x xs)
  have "filter (\<lambda>y. y \<noteq> x) (filter (\<lambda>y. y \<notin> set xs) (newSet ys))
        = filter (\<lambda>y. y \<notin> set (x # xs)) (newSet ys)"
    by (auto intro: filter_cong)
  with Cons show ?case by (simp add: newSet_Cons)
qed

lemma merge_bucket:
  "set (newSet (g @ p)) = set g \<union> set p
   \<and> distinct (newSet (g @ p))
   \<and> newSet (g @ p) = newSet g @ filter (\<lambda>x. x \<notin> set g) (newSet p)
   \<and> (distinct g \<longrightarrow> newSet (g @ p) = g @ filter (\<lambda>x. x \<notin> set g) (newSet p))"
proof -
  have "set (newSet (g @ p)) = set g \<union> set p" by (simp add: set_newSet)
  moreover have "distinct (newSet (g @ p))" by (rule distinct_newSet)
  moreover have "newSet (g @ p) = newSet g @ filter (\<lambda>x. x \<notin> set g) (newSet p)"
    by (rule newSet_append)
  moreover have "distinct g \<longrightarrow> newSet (g @ p) = g @ filter (\<lambda>x. x \<notin> set g) (newSet p)"
    using newSet_append[of g p] newSet_distinct[of g] by simp
  ultimately show ?thesis by blast
qed

text \<open>
  Claim C7: \<open>mergePermissions global project\<close> gives, for each of the buckets \<open>allow\<close>,
  \<open>deny\<close> and \<open>ask\<close>, the union of the global and the project patterns, without
  duplicates (equality of strings), the global entries first (in their order, each once) and
  then the patterns that only the project has (in their order, each once). Global
  \<open>allow = ['A']\<close> and project \<open>allow = ['B']\<close> give \<open>allow = ['A', 'B']\<close>.
\<close>

theorem mergePermissions_union:
  "set (allow (mergePermissions g p)) = set (allow g) \<union> set (orEmpty (allow_opt p))
   \<and> distinct (allow (mergePermissions g p))
   \<and> allow (mergePermissions g p)
       = newSet (allow g) @ filter (\<lambda>x. x \<notin> set (allow g)) (newSet (orEmpty (allow_opt p)))
   \<and> (distinct (allow g) \<longrightarrow> allow (mergePermissions g p)
       = allow g @ filter (\<lambda>x. x \<notin> set (allow g)) (newSet (orEmpty (allow_opt p))))
   \<and> set (deny (mergePermissions g p)) = set (deny g) \<union> set (orEmpty (deny_opt p))
   \<and> distinct (deny (mergePermissions g p))
   \<and> deny (mergePermissions g p)
       = newSet (deny g) @ filter (\<lambda>x. x \<notin> set (deny g)) (newSet (orEmpty (deny_opt p)))
   \<and> (distinct (deny g) \<longrightarrow> deny (mergePermissions g p)
       = deny g @ filter (\<lambda>x. x \<notin> set (deny g)) (newSet (orEmpty (deny_opt p))))
   \<and> set (ask (mergePermissions g p)) = set (ask g) \<union> set (orEmpty (ask_opt p))
   \<and> distinct (ask (mergePermissions g p))
   \<and> ask (mergePermissions g p)
       = newSet (ask g) @ filter (\<lambda>x. x \<notin> set (ask g)) (newSet (orEmpty (ask_opt p)))
   \<and> (distinct (ask g) \<longrightarrow> ask (mergePermissions g p)
       = ask g @ filter (\<lambda>x. x \<notin> set (ask g)) (newSet (orEmpty (ask_opt p))))
   \<and> mergePermissions \<lparr> allow = [''A''], deny = [], ask = [] \<rparr>
         \<lparr> allow_opt = Some [''B''], deny_opt = None, ask_opt = None \<rparr>
       = \<lparr> allow = [''A'', ''B''], deny = [], ask = [] \<rparr>"
proof -
  have ex: "mergePermissions \<lparr> allow = [''A''], deny = [], ask = [] \<rparr>
         \<lparr> allow_opt = Some [''B''], deny_opt = None, ask_opt = None \<rparr>
       = \<lparr> allow = [''A'', ''B''], deny = [], ask = [] \<rparr>"
    by (simp add: mergePermissions_def newSet_def setAdd_def orEmpty_def)
  have a: "allow (mergePermissions g p) = newSet (allow g @ orEmpty (allow_opt p))"
    and d: "deny (mergePermissions g p) = newSet (deny g @ orEmpty (deny_opt p))"
    and k: "ask (mergePermissions g p) = newSet (ask g @ orEmpty (ask_opt p))"
    by (simp_all add: mergePermissions_def)
  show ?thesis
    unfolding a d k
    using merge_bucket[of "allow g" "orEmpty (allow_opt p)"]
      merge_bucket[of "deny g" "orEmpty (deny_opt p)"]
      merge_bucket[of "ask g" "orEmpty (ask_opt p)"] ex
    by blast
qed

theorem mergePermissions_union_witness:
  "distinct [''Read'', ''Bash(git:*)'']
   \<and> allow (mergePermissions \<lparr> allow = [''Read'', ''Bash(git:*)''], deny = [''Write''], ask = [] \<rparr>
         \<lparr> allow_opt = Some [''Edit'', ''Read'', ''Edit''], deny_opt = None, ask_opt = Some [''Bash''] \<rparr>)
       = [''Read'', ''Bash(git:*)'', ''Edit'']"
proof -
  let ?g = "\<lparr> allow = [''Read'', ''Bash(git:*)''], deny = [''Write''], ask = [] \<rparr>"
  let ?p = "\<lparr> allow_opt = Some [''Edit'', ''Read'', ''Edit''], deny_opt = None,
             ask_opt = Some [''Bash''] \<rparr>"
  have d: "distinct (allow ?g)" by simp
  have n: "newSet (orEmpty (Some [''Edit'', ''Read'', ''Edit''])) = [''Edit'', ''Read'']"
    by (simp add: newSet_def setAdd_def orEmpty_def)
  from mergePermissions_union[of ?g ?p] d
  have "allow (mergePermissions ?g ?p)
        = allow ?g @ filter (\<lambda>x. x \<notin> set (allow ?g)) (newSet (orEmpty (allow_opt ?p)))"
    by blast
  then show ?thesis by (simp add: n)
qed

section \<open>Properties of the artifact codecs\<close>

lemma last_dropWhile_nonempty:
  "dropWhile P xs \<noteq> [] \<Longrightarrow> last (dropWhile P xs) = last xs"
proof -
  assume a: "dropWhile P xs \<noteq> []"
  have "xs = takeWhile P xs @ dropWhile P xs" by simp
  then have "last xs = last (takeWhile P xs @ dropWhile P xs)" by simp
  then show ?thesis using a by (simp only: last_append if_False)
qed

lemma trim_ends:
  "trim s = [] \<or> (\<not> isWhiteSpace (hd (trim s)) \<and> \<not> isWhiteSpace (last (trim s)))"
proof (cases "trim s = []")
  case True
  then show ?thesis by simp
next
  case False
  let ?t = "dropWhile isWhiteSpace s"
  let ?u = "dropWhile isWhiteSpace (rev ?t)"
  have u: "?u \<noteq> []" using False by (simp add: trim_def)
  have t: "?t \<noteq> []"
  proof
    assume e: "?t = []"
    show False using u unfolding e by simp
  qed
  have "last (trim s) = hd ?u" using u by (simp add: trim_def last_rev)
  moreover have "\<not> isWhiteSpace (hd ?u)" using u by (rule hd_dropWhile)
  moreover have "hd (trim s) = last ?u" using u by (simp add: trim_def hd_rev)
  moreover have "last ?u = last (rev ?t)" using u by (rule last_dropWhile_nonempty)
  moreover have "last (rev ?t) = hd ?t" using t by (simp add: last_rev)
  moreover have "\<not> isWhiteSpace (hd ?t)" using t by (rule hd_dropWhile)
  ultimately show ?thesis by simp
qed

lemma trim_decomp:
  "\<exists>l r. s = l @ trim s @ r \<and> (\<forall>c \<in> set l. isWhiteSpace c) \<and> (\<forall>c \<in> set r. isWhiteSpace c)"
proof -
  let ?l = "takeWhile isWhiteSpace s"
  let ?t = "dropWhile isWhiteSpace s"
  let ?r = "rev (takeWhile isWhiteSpace (rev ?t))"
  have "rev (takeWhile isWhiteSpace (rev ?t) @ dropWhile isWhiteSpace (rev ?t)) = rev (rev ?t)"
    by (simp only: takeWhile_dropWhile_id)
  then have "rev (dropWhile isWhiteSpace (rev ?t)) @ ?r = ?t"
    by (simp only: rev_append rev_rev_ident)
  then have "?t = trim s @ ?r" by (simp only: trim_def)
  moreover have "s = ?l @ ?t" by simp
  ultimately have "s = ?l @ trim s @ ?r" by simp
  moreover have "\<forall>c \<in> set ?l. isWhiteSpace c" by (auto dest: set_takeWhileD)
  moreover have "\<forall>c \<in> set ?r. isWhiteSpace c" by (auto dest: set_takeWhileD)
  ultimately show ?thesis by blast
qed

lemma dropWhile_hd_id: "s = [] \<or> \<not> P (hd s) \<Longrightarrow> dropWhile P s = s"
  by (cases s) auto

lemma trim_id:
  assumes "s = [] \<or> (\<not> isWhiteSpace (hd s) \<and> \<not> isWhiteSpace (last s))"
  shows "trim s = s"
proof (cases "s = []")
  case True
  then show ?thesis by (simp add: trim_def)
next
  case False
  then have h: "\<not> isWhiteSpace (hd s)" and l: "\<not> isWhiteSpace (last s)" using assms by auto
  have a: "dropWhile isWhiteSpace s = s" using h by (simp add: dropWhile_hd_id)
  have "hd (rev s) = last s" using False by (simp add: hd_rev)
  then have "dropWhile isWhiteSpace (rev s) = rev s" using l by (simp add: dropWhile_hd_id)
  then show ?thesis using a by (simp add: trim_def)
qed

lemma trim_fixed_iff:
  "trim s = s \<longleftrightarrow> (s = [] \<or> (\<not> isWhiteSpace (hd s) \<and> \<not> isWhiteSpace (last s)))"
  using trim_ends[of s] trim_id[of s] by auto


lemmas codec_eval = parseCommandMarkdown_def parseSkillMarkdown_def parseAgentMarkdown_def
  matchFrontmatter_def startsWith_def parseFrontmatter_def addLine_def matchLine_def trim_def
  isWhiteSpace_def isLineTerminator_def popReplaceMd_def sliceParent_def orElse_def
  parseTools_def commandToMarkdown_def skillToMarkdown_def agentToMarkdown_def Let_def

lemma split_nonempty: "split d s \<noteq> []"
  by (induction s) (auto split: list.splits)

lemma split_append: "split d (xs @ d # ys) = split d xs @ split d ys"
proof (induction xs)
  case Nil
  show ?case by simp
next
  case (Cons c cs)
  obtain w ws where w: "split d cs = w # ws"
    using split_nonempty[of d cs] by (cases "split d cs") auto
  show ?case using Cons w by simp
qed

lemma split_none: "d \<notin> set s \<Longrightarrow> split d s = [s]"
  by (induction s) auto

lemma replaceFirst_suffix:
  "CHR ''.'' \<notin> set s \<Longrightarrow> replaceFirst ''.md'' [] (s @ ''.md'') = s"
  by (induction s) (auto simp: startsWith_def)

lemma popReplaceMd_stem:
  assumes "CHR ''/'' \<notin> set stem" and "CHR ''.'' \<notin> set stem"
  shows "popReplaceMd (dir @ ''/'' @ stem @ ''.md'') = stem"
proof -
  have "CHR ''/'' \<notin> set (stem @ ''.md'')" using assms(1) by simp
  then have "split CHR ''/'' (stem @ ''.md'') = [stem @ ''.md'']" by (rule split_none)
  then have "split CHR ''/'' (dir @ CHR ''/'' # (stem @ ''.md''))
             = split CHR ''/'' dir @ [stem @ ''.md'']"
    by (simp only: split_append)
  then have "last (split CHR ''/'' (dir @ ''/'' @ stem @ ''.md'')) = stem @ ''.md''"
    by simp
  then have "popReplaceMd (dir @ ''/'' @ stem @ ''.md'') = replaceFirst ''.md'' [] (stem @ ''.md'')"
    by (simp only: popReplaceMd_def)
  then show ?thesis using replaceFirst_suffix[OF assms(2)] by simp
qed

lemma sliceParent_dir:
  assumes "CHR ''/'' \<notin> set d"
  shows "sliceParent (root @ ''/'' @ d @ ''/SKILL.md'') = d"
proof -
  have a: "split CHR ''/'' d = [d]" using assms by (rule split_none)
  have b: "split CHR ''/'' ''SKILL.md'' = [''SKILL.md'']" by simp
  have "split CHR ''/'' (root @ CHR ''/'' # (d @ CHR ''/'' # ''SKILL.md''))
        = split CHR ''/'' root @ [d] @ [''SKILL.md'']"
    by (simp only: split_append a b)
  then have c: "split CHR ''/'' (root @ ''/'' @ d @ ''/SKILL.md'')
        = split CHR ''/'' root @ [d] @ [''SKILL.md'']"
    by simp
  show ?thesis
    unfolding sliceParent_def c by (simp add: nth_append)
qed

lemma parseCommand_Some:
  "parseCommandMarkdown text path = Some c \<Longrightarrow>
   \<exists>fm body. matchFrontmatter text = Some (fm, body)
     \<and> cmd_name c = popReplaceMd path \<and> cmd_content c = trim body"
  by (auto simp: parseCommandMarkdown_def Let_def split: option.splits)

lemma parseSkill_Some:
  "parseSkillMarkdown text path = Some s \<Longrightarrow>
   \<exists>fm body. matchFrontmatter text = Some (fm, body)
     \<and> skill_name s = orElse (parseFrontmatter fm ''name'') (sliceParent path)
     \<and> skill_content s = trim body"
  by (auto simp: parseSkillMarkdown_def Let_def split: option.splits)

lemma parseAgent_Some:
  "parseAgentMarkdown text path = Some a \<Longrightarrow>
   \<exists>fm body. matchFrontmatter text = Some (fm, body)
     \<and> agent_name a = orElse (parseFrontmatter fm ''name'') (popReplaceMd path)
     \<and> agent_content a = trim body"
  by (auto simp: parseAgentMarkdown_def Let_def split: option.splits)

lemma trimmed_of_body:
  "content = trim body \<Longrightarrow>
   (\<exists>l r. body = l @ content @ r \<and> (\<forall>x \<in> set l. isWhiteSpace x) \<and> (\<forall>x \<in> set r. isWhiteSpace x))
   \<and> (content = [] \<or> (\<not> isWhiteSpace (hd content) \<and> \<not> isWhiteSpace (last content)))"
  using trim_decomp[of body] trim_ends[of body] by simp

text \<open>
  Claim C10: when a decoder accepts a text, the content of the record it returns is the body
  (the text after the closing delimiter line) without its leading and trailing white space:
  the body is white space, then the content, then white space, and the content is empty or
  neither starts nor ends with a white-space character. This holds for the Command, the Skill
  and the Agent decoder.
\<close>

theorem decoded_content_trimmed:
  "(parseCommandMarkdown text path = Some c \<longrightarrow>
      (\<exists>fm body l r. matchFrontmatter text = Some (fm, body) \<and> cmd_content c = trim body
         \<and> body = l @ cmd_content c @ r
         \<and> (\<forall>x \<in> set l. isWhiteSpace x) \<and> (\<forall>x \<in> set r. isWhiteSpace x))
      \<and> (cmd_content c = []
           \<or> (\<not> isWhiteSpace (hd (cmd_content c)) \<and> \<not> isWhiteSpace (last (cmd_content c)))))
   \<and> (parseSkillMarkdown text path = Some s \<longrightarrow>
      (\<exists>fm body l r. matchFrontmatter text = Some (fm, body) \<and> skill_content s = trim body
         \<and> body = l @ skill_content s @ r
         \<and> (\<forall>x \<in> set l. isWhiteSpace x) \<and> (\<forall>x \<in> set r. isWhiteSpace x))
      \<and> (skill_content s = []
           \<or> (\<not> isWhiteSpace (hd (skill_content s)) \<and> \<not> isWhiteSpace (last (skill_content s)))))
   \<and> (parseAgentMarkdown text path = Some a \<longrightarrow>
      (\<exists>fm body l r. matchFrontmatter text = Some (fm, body) \<and> agent_content a = trim body
         \<and> body = l @ agent_content a @ r
         \<and> (\<forall>x \<in> set l. isWhiteSpace x) \<and> (\<forall>x \<in> set r. isWhiteSpace x))
      \<and> (agent_content a = []
           \<or> (\<not> isWhiteSpace (hd (agent_content a)) \<and> \<not> isWhiteSpace (last (agent_content a)))))"
proof (intro conjI impI)
  assume "parseCommandMarkdown text path = Some c"
  then obtain fm body where m: "matchFrontmatter text = Some (fm, body)"
    and t: "cmd_content c = trim body"
    using parseCommand_Some by blast
  show "\<exists>fm body l r. matchFrontmatter text = Some (fm, body) \<and> cmd_content c = trim body
         \<and> body = l @ cmd_content c @ r
         \<and> (\<forall>x \<in> set l. isWhiteSpace x) \<and> (\<forall>x \<in> set r. isWhiteSpace x)"
    using m t trimmed_of_body[OF t] by blast
  show "cmd_content c = []
        \<or> (\<not> isWhiteSpace (hd (cmd_content c)) \<and> \<not> isWhiteSpace (last (cmd_content c)))"
    using trimmed_of_body[OF t] by blast
next
  assume "parseSkillMarkdown text path = Some s"
  then obtain fm body where m: "matchFrontmatter text = Some (fm, body)"
    and t: "skill_content s = trim body"
    using parseSkill_Some by blast
  show "\<exists>fm body l r. matchFrontmatter text = Some (fm, body) \<and> skill_content s = trim body
         \<and> body = l @ skill_content s @ r
         \<and> (\<forall>x \<in> set l. isWhiteSpace x) \<and> (\<forall>x \<in> set r. isWhiteSpace x)"
    using m t trimmed_of_body[OF t] by blast
  show "skill_content s = []
        \<or> (\<not> isWhiteSpace (hd (skill_content s)) \<and> \<not> isWhiteSpace (last (skill_content s)))"
    using trimmed_of_body[OF t] by blast
next
  assume "parseAgentMarkdown text path = Some a"
  then obtain fm body where m: "matchFrontmatter text = Some (fm, body)"
    and t: "agent_content a = trim body"
    using parseAgent_Some by blast
  show "\<exists>fm body l r. matchFrontmatter text = Some (fm, body) \<and> agent_content a = trim body
         \<and> body = l @ agent_content a @ r
         \<and> (\<forall>x \<in> set l. isWhiteSpace x) \<and> (\<forall>x \<in> set r. isWhiteSpace x)"
    using m t trimmed_of_body[OF t] by blast
  show "agent_content a = []
        \<or> (\<not> isWhiteSpace (hd (agent_content a)) \<and> \<not> isWhiteSpace (last (agent_content a)))"
    using trimmed_of_body[OF t] by blast
qed

theorem decoded_content_trimmed_witness:
  "parseCommandMarkdown ''---\<newline>description: d\<newline>---\<newline>\<newline>  run the tests \<newline>''
     ''/p/.claude/commands/t.md''
   = Some \<lparr> cmd_name = ''t'', cmd_description = ''d'', cmd_argumentHint = None,
            cmd_content = ''run the tests'', cmd_filePath = ''/p/.claude/commands/t.md'' \<rparr>
   \<and> \<not> isWhiteSpace (hd ''run the tests'') \<and> \<not> isWhiteSpace (last ''run the tests'')"
proof -
  let ?c = "\<lparr> cmd_name = ''t'', cmd_description = ''d'', cmd_argumentHint = None,
            cmd_content = ''run the tests'', cmd_filePath = ''/p/.claude/commands/t.md'' \<rparr>"
  have p: "parseCommandMarkdown ''---\<newline>description: d\<newline>---\<newline>\<newline>  run the tests \<newline>''
     ''/p/.claude/commands/t.md'' = Some ?c"
    by (simp add: codec_eval)
  from decoded_content_trimmed[of _ _ ?c] p
  have "cmd_content ?c = []
        \<or> (\<not> isWhiteSpace (hd (cmd_content ?c)) \<and> \<not> isWhiteSpace (last (cmd_content ?c)))"
    by blast
  with p show ?thesis by simp
qed

text \<open>
  Claim C5, as stated, fails for an Agent (and a Skill) whose header has the key \<open>name\<close> with
  an empty value: the key is present, yet the decoder takes the name from the file stem (from
  the directory, for a Skill).
\<close>

theorem name_resolution_counterexample:
  "matchFrontmatter ''---\<newline>name:\<newline>description: d\<newline>---\<newline>body''
     = Some (''name:\<newline>description: d'', ''body'')
   \<and> parseFrontmatter ''name:\<newline>description: d'' ''name'' = Some []
   \<and> map_option agent_name
         (parseAgentMarkdown ''---\<newline>name:\<newline>description: d\<newline>---\<newline>body''
            ''/p/.claude/agents/helper.md'') = Some ''helper''
   \<and> map_option skill_name
         (parseSkillMarkdown ''---\<newline>name:\<newline>description: d\<newline>---\<newline>body''
            ''/p/.claude/skills/docs/SKILL.md'') = Some ''docs''"
  by (simp add: codec_eval)

lemma startsWith_md_append:
  assumes "startsWith ((c # cs) @ ''.md'') ''.md''"
  shows "startsWith (c # cs) ''.md''"
proof (cases cs)
  case Nil
  then show ?thesis using assms by (simp add: startsWith_def)
next
  case (Cons d ds)
  then show ?thesis using assms by (cases ds) (simp_all add: startsWith_def)
qed

lemma replaceFirst_stem:
  "\<not> occursIn ''.md'' s \<Longrightarrow> replaceFirst ''.md'' [] (s @ ''.md'') = s"
proof (induction s)
  case Nil
  show ?case by (simp add: startsWith_def)
next
  case (Cons c cs)
  then have "\<not> startsWith (c # cs) ''.md''" and r: "\<not> occursIn ''.md'' cs" by simp_all
  then have "\<not> startsWith ((c # cs) @ ''.md'') ''.md''"
    using startsWith_md_append by blast
  then have "replaceFirst ''.md'' [] ((c # cs) @ ''.md'') = c # replaceFirst ''.md'' [] (cs @ ''.md'')"
    by simp
  then show ?case using Cons.IH[OF r] by simp
qed

lemma popReplaceMd_file_stem:
  assumes "CHR ''/'' \<notin> set stem" and "\<not> occursIn ''.md'' stem"
  shows "popReplaceMd (dir @ ''/'' @ stem @ ''.md'') = stem"
proof -
  have "CHR ''/'' \<notin> set (stem @ ''.md'')" using assms(1) by simp
  then have "split CHR ''/'' (stem @ ''.md'') = [stem @ ''.md'']" by (rule split_none)
  then have "split CHR ''/'' (dir @ CHR ''/'' # (stem @ ''.md''))
             = split CHR ''/'' dir @ [stem @ ''.md'']"
    by (simp only: split_append)
  then have "last (split CHR ''/'' (dir @ ''/'' @ stem @ ''.md'')) = stem @ ''.md''"
    by simp
  then have "popReplaceMd (dir @ ''/'' @ stem @ ''.md'') = replaceFirst ''.md'' [] (stem @ ''.md'')"
    by (simp only: popReplaceMd_def)
  then show ?thesis using replaceFirst_stem[OF assms(2)] by simp
qed

lemma sliceParent_containing:
  assumes "CHR ''/'' \<notin> set d" and "CHR ''/'' \<notin> set leaf"
  shows "sliceParent (dir @ ''/'' @ d @ ''/'' @ leaf) = d"
proof -
  have a: "split CHR ''/'' d = [d]" using assms(1) by (rule split_none)
  have b: "split CHR ''/'' leaf = [leaf]" using assms(2) by (rule split_none)
  have "split CHR ''/'' (dir @ CHR ''/'' # (d @ CHR ''/'' # leaf))
        = split CHR ''/'' dir @ [d] @ [leaf]"
    by (simp only: split_append a b)
  then have c: "split CHR ''/'' (dir @ ''/'' @ d @ ''/'' @ leaf)
        = split CHR ''/'' dir @ [d] @ [leaf]"
    by simp
  show ?thesis
    unfolding sliceParent_def c by (simp add: nth_append)
qed

text \<open>
  Claim C5, amended: name resolution on decode is artifact-kind-specific. For every text that
  the decoder accepts and every source path \<open>dir/stem.md\<close> whose stem holds no slash and no
  further \<open>.md\<close>, a Command's name is the file stem, whatever the header says, and an Agent's
  name is the value of the header key \<open>name\<close> if that key is present with a non-empty value,
  else the file stem. For every path \<open>dir/d/file\<close>, a Skill's name is the value of the header
  key \<open>name\<close> if present with a non-empty value, else the name \<open>d\<close> of the containing
  directory.
\<close>

theorem name_resolution:
  "(CHR ''/'' \<notin> set stem \<and> \<not> occursIn ''.md'' stem \<longrightarrow>
      (parseCommandMarkdown text (dir @ ''/'' @ stem @ ''.md'') = Some c \<longrightarrow> cmd_name c = stem)
      \<and> (parseAgentMarkdown text (dir @ ''/'' @ stem @ ''.md'') = Some a \<longrightarrow>
           (\<exists>fm body. matchFrontmatter text = Some (fm, body)
              \<and> agent_name a = (case parseFrontmatter fm ''name'' of
                                  None \<Rightarrow> stem
                                | Some v \<Rightarrow> if v = [] then stem else v))))
   \<and> (CHR ''/'' \<notin> set d \<and> CHR ''/'' \<notin> set leaf \<longrightarrow>
      (parseSkillMarkdown text (dir @ ''/'' @ d @ ''/'' @ leaf) = Some s \<longrightarrow>
           (\<exists>fm body. matchFrontmatter text = Some (fm, body)
              \<and> skill_name s = (case parseFrontmatter fm ''name'' of
                                  None \<Rightarrow> d
                                | Some v \<Rightarrow> if v = [] then d else v))))"
proof (intro conjI impI)
  assume h: "CHR ''/'' \<notin> set stem \<and> \<not> occursIn ''.md'' stem"
  assume "parseCommandMarkdown text (dir @ ''/'' @ stem @ ''.md'') = Some c"
  then have "cmd_name c = popReplaceMd (dir @ ''/'' @ stem @ ''.md'')"
    using parseCommand_Some by blast
  then show "cmd_name c = stem" using popReplaceMd_file_stem[of stem dir] h by simp
next
  assume h: "CHR ''/'' \<notin> set stem \<and> \<not> occursIn ''.md'' stem"
  assume "parseAgentMarkdown text (dir @ ''/'' @ stem @ ''.md'') = Some a"
  then obtain fm body where m: "matchFrontmatter text = Some (fm, body)"
    and n: "agent_name a = orElse (parseFrontmatter fm ''name'') (popReplaceMd (dir @ ''/'' @ stem @ ''.md''))"
    using parseAgent_Some by blast
  have p: "popReplaceMd (dir @ ''/'' @ stem @ ''.md'') = stem"
    using popReplaceMd_file_stem[of stem dir] h by simp
  have "agent_name a = (case parseFrontmatter fm ''name'' of
                                  None \<Rightarrow> stem
                                | Some v \<Rightarrow> if v = [] then stem else v)"
    unfolding n p by (simp add: orElse_def)
  then show "\<exists>fm body. matchFrontmatter text = Some (fm, body)
              \<and> agent_name a = (case parseFrontmatter fm ''name'' of
                                  None \<Rightarrow> stem
                                | Some v \<Rightarrow> if v = [] then stem else v)"
    using m by blast
next
  assume h: "CHR ''/'' \<notin> set d \<and> CHR ''/'' \<notin> set leaf"
  assume "parseSkillMarkdown text (dir @ ''/'' @ d @ ''/'' @ leaf) = Some s"
  then obtain fm body where m: "matchFrontmatter text = Some (fm, body)"
    and n: "skill_name s = orElse (parseFrontmatter fm ''name'') (sliceParent (dir @ ''/'' @ d @ ''/'' @ leaf))"
    using parseSkill_Some by blast
  have p: "sliceParent (dir @ ''/'' @ d @ ''/'' @ leaf) = d"
    using sliceParent_containing[of d leaf dir] h by simp
  have "skill_name s = (case parseFrontmatter fm ''name'' of
                                  None \<Rightarrow> d
                                | Some v \<Rightarrow> if v = [] then d else v)"
    unfolding n p by (simp add: orElse_def)
  then show "\<exists>fm body. matchFrontmatter text = Some (fm, body)
              \<and> skill_name s = (case parseFrontmatter fm ''name'' of
                                  None \<Rightarrow> d
                                | Some v \<Rightarrow> if v = [] then d else v)"
    using m by blast
qed

theorem name_resolution_witness:
  "CHR ''/'' \<notin> set ''review.v2'' \<and> \<not> occursIn ''.md'' ''review.v2''
   \<and> parseCommandMarkdown ''---\<newline>name: other\<newline>description: d\<newline>---\<newline>body''
        (''/p/.claude/commands'' @ ''/'' @ ''review.v2'' @ ''.md'')
     = Some \<lparr> cmd_name = ''review.v2'', cmd_description = ''d'', cmd_argumentHint = None,
              cmd_content = ''body'', cmd_filePath = ''/p/.claude/commands/review.v2.md'' \<rparr>
   \<and> parseAgentMarkdown ''---\<newline>name: other\<newline>description: d\<newline>---\<newline>body''
        (''/p/.claude/agents'' @ ''/'' @ ''review.v2'' @ ''.md'')
     = Some \<lparr> agent_name = ''other'', agent_description = ''d'', agent_tools = [],
              agent_model = ''inherit'', agent_content = ''body'',
              agent_filePath = ''/p/.claude/agents/review.v2.md'' \<rparr>
   \<and> parseAgentMarkdown ''---\<newline>description: d\<newline>---\<newline>body''
        (''/p/.claude/agents'' @ ''/'' @ ''review.v2'' @ ''.md'')
     = Some \<lparr> agent_name = ''review.v2'', agent_description = ''d'', agent_tools = [],
              agent_model = ''inherit'', agent_content = ''body'',
              agent_filePath = ''/p/.claude/agents/review.v2.md'' \<rparr>
   \<and> CHR ''/'' \<notin> set ''docs'' \<and> CHR ''/'' \<notin> set ''SKILL.md''
   \<and> parseSkillMarkdown ''---\<newline>description: d\<newline>---\<newline>body''
        (''/p/.claude/skills'' @ ''/'' @ ''docs'' @ ''/'' @ ''SKILL.md'')
     = Some \<lparr> skill_name = ''docs'', skill_description = ''d'', skill_tools = [],
              skill_model = ''inherit'', skill_content = ''body'',
              skill_filePath = ''/p/.claude/skills/docs/SKILL.md'' \<rparr>"
proof -
  let ?t = "''---\<newline>name: other\<newline>description: d\<newline>---\<newline>body''"
  let ?c = "\<lparr> cmd_name = ''review.v2'', cmd_description = ''d'', cmd_argumentHint = None,
              cmd_content = ''body'', cmd_filePath = ''/p/.claude/commands/review.v2.md'' \<rparr>"
  have h: "CHR ''/'' \<notin> set ''review.v2'' \<and> \<not> occursIn ''.md'' ''review.v2''"
    by (simp add: startsWith_def)
  have k: "CHR ''/'' \<notin> set ''docs'' \<and> CHR ''/'' \<notin> set ''SKILL.md''" by simp
  have pc: "parseCommandMarkdown ?t (''/p/.claude/commands'' @ ''/'' @ ''review.v2'' @ ''.md'') = Some ?c"
    by (simp add: codec_eval)
  have pa: "parseAgentMarkdown ?t (''/p/.claude/agents'' @ ''/'' @ ''review.v2'' @ ''.md'')
     = Some \<lparr> agent_name = ''other'', agent_description = ''d'', agent_tools = [],
              agent_model = ''inherit'', agent_content = ''body'',
              agent_filePath = ''/p/.claude/agents/review.v2.md'' \<rparr>"
    by (simp add: codec_eval)
  have pb: "parseAgentMarkdown ''---\<newline>description: d\<newline>---\<newline>body''
        (''/p/.claude/agents'' @ ''/'' @ ''review.v2'' @ ''.md'')
     = Some \<lparr> agent_name = ''review.v2'', agent_description = ''d'', agent_tools = [],
              agent_model = ''inherit'', agent_content = ''body'',
              agent_filePath = ''/p/.claude/agents/review.v2.md'' \<rparr>"
    by (simp add: codec_eval)
  have ps: "parseSkillMarkdown ''---\<newline>description: d\<newline>---\<newline>body''
        (''/p/.claude/skills'' @ ''/'' @ ''docs'' @ ''/'' @ ''SKILL.md'')
     = Some \<lparr> skill_name = ''docs'', skill_description = ''d'', skill_tools = [],
              skill_model = ''inherit'', skill_content = ''body'',
              skill_filePath = ''/p/.claude/skills/docs/SKILL.md'' \<rparr>"
    by (simp add: codec_eval)
  note t = name_resolution[of "''review.v2''" ?t "''/p/.claude/commands''" ?c]
  have "cmd_name ?c = ''review.v2''" using t h pc by blast
  moreover have "\<exists>fm body. matchFrontmatter ''---\<newline>description: d\<newline>---\<newline>body'' = Some (fm, body)"
    using name_resolution[of _ "''---\<newline>description: d\<newline>---\<newline>body''"
        "''/p/.claude/skills''" _ _ "''docs''" "''SKILL.md''"] k ps
    by blast
  ultimately show ?thesis using h k pc pa pb ps by simp
qed

text \<open>
  The decoders remove the first \<open>.md\<close> of the file name, not the extension: for a file whose
  stem holds \<open>.md\<close> the result is not the stem.
\<close>

lemma popReplaceMd_inner_md:
  "popReplaceMd ''/p/.claude/commands/x.mdx.md'' = ''xx.md''"
  by (simp add: popReplaceMd_def startsWith_def)

section \<open>Properties of the hook operations\<close>

lemma findFirst_None_iff: "findFirst p xs = None \<longleftrightarrow> filter p xs = []"
  by (induction xs) auto

lemma findFirst_Some_hd: "findFirst p xs = Some x \<Longrightarrow> filter p xs \<noteq> [] \<and> hd (filter p xs) = x"
  by (induction xs) (auto split: if_splits)

lemma filter_pushToExisting:
  "filter (\<lambda>g. matcher g = m) (pushToExisting m d ms)
   = (case filter (\<lambda>g. matcher g = m) ms of
        [] \<Rightarrow> []
      | g # gs \<Rightarrow> g\<lparr> hooks := hooks g @ [d] \<rparr> # gs)"
  by (induction ms) auto

lemma matcherGroups_setEventHooks:
  "matcherGroups e (s\<lparr> hooks_section := Some (setEventHooks e ms h) \<rparr>) = ms"
  by (cases e) (simp_all add: matcherGroups_def setEventHooks_def eventHooks_def)

lemma matcherGroups_addHookSettings:
  "matcherGroups e (addHookSettings e i s)
   = (case findFirst (\<lambda>g. matcher g = in_matcher i) (matcherGroups e s) of
        Some x \<Rightarrow> pushToExisting (in_matcher i) (hookDefinitionOf i) (matcherGroups e s)
      | None \<Rightarrow> matcherGroups e s @ [\<lparr> matcher = in_matcher i, hooks = [hookDefinitionOf i] \<rparr>])"
proof -
  have a: "(case eventHooks e (case hooks_section s of
               None \<Rightarrow> \<lparr> preToolUse = Some [], postToolUse = Some [] \<rparr> | Some x \<Rightarrow> x) of
             None \<Rightarrow> [] | Some x \<Rightarrow> x) = matcherGroups e s"
    by (cases e) (simp_all add: matcherGroups_def eventHooks_def split: option.splits)
  show ?thesis
    unfolding addHookSettings_def Let_def matcherGroups_setEventHooks a ..
qed

lemma addHookSettings_groups:
  assumes "in_matcher i = m"
  shows "filter (\<lambda>g. matcher g = m) (matcherGroups e (addHookSettings e i s))
   = (case filter (\<lambda>g. matcher g = m) (matcherGroups e s) of
        [] \<Rightarrow> [\<lparr> matcher = m, hooks = [hookDefinitionOf i] \<rparr>]
      | g # gs \<Rightarrow> g\<lparr> hooks := hooks g @ [hookDefinitionOf i] \<rparr> # gs)"
proof (cases "findFirst (\<lambda>g. matcher g = m) (matcherGroups e s)")
  case None
  then have "filter (\<lambda>g. matcher g = m) (matcherGroups e s) = []"
    by (simp add: findFirst_None_iff)
  then show ?thesis using None assms by (simp add: matcherGroups_addHookSettings)
next
  case (Some x)
  then have "filter (\<lambda>g. matcher g = m) (matcherGroups e s) \<noteq> []"
    using findFirst_Some_hd by fastforce
  then show ?thesis
    using Some assms
    by (simp add: matcherGroups_addHookSettings filter_pushToExisting split: list.splits)
qed

lemma currentSettings_saveSettings:
  "basePath \<noteq> [] \<Longrightarrow>
   \<exists>w'. saveSettings s basePath w = Inr w'
     \<and> settingsJson (files w') = Some (Json s)
     \<and> currentSettings basePath w' = s
     \<and> fired w' = fired w @ [loadConfig basePath (files w')]"
  by (simp add: saveSettings_def Let_def fire_def currentSettings_def loadConfig_def)

lemma addHook_result:
  assumes "basePath \<noteq> []"
  shows "\<exists>h w'. addHook e i u basePath w = Inr (h, w')
     \<and> settingsJson (files w') = Some (Json (addHookSettings e i (currentSettings basePath w)))
     \<and> currentSettings basePath w' = addHookSettings e i (currentSettings basePath w)
     \<and> fired w' = fired w @ [loadConfig basePath (files w')]"
proof -
  obtain w' where "saveSettings (addHookSettings e i (currentSettings basePath w)) basePath w = Inr w'"
    and "settingsJson (files w') = Some (Json (addHookSettings e i (currentSettings basePath w)))"
    and "currentSettings basePath w' = addHookSettings e i (currentSettings basePath w)"
    and "fired w' = fired w @ [loadConfig basePath (files w')]"
    using currentSettings_saveSettings[OF assms] by blast
  then show ?thesis
    using assms by (simp add: addHook_def getConfig_def Let_def currentSettings_def)
qed

lemma addHooks_groups:
  assumes "basePath \<noteq> []" and "\<forall>c \<in> set calls. in_matcher (fst c) = m"
  shows "\<exists>w'. addHooks e calls basePath w = Inr w'
     \<and> (calls \<noteq> [] \<longrightarrow> settingsJson (files w') = Some (Json (currentSettings basePath w')))
     \<and> filter (\<lambda>g. matcher g = m) (matcherGroups e (currentSettings basePath w'))
       = (case filter (\<lambda>g. matcher g = m) (matcherGroups e (currentSettings basePath w)) of
            [] \<Rightarrow> (if calls = [] then []
                   else [\<lparr> matcher = m, hooks = map (\<lambda>c. hookDefinitionOf (fst c)) calls \<rparr>])
          | g # gs \<Rightarrow> g\<lparr> hooks := hooks g @ map (\<lambda>c. hookDefinitionOf (fst c)) calls \<rparr> # gs)"
  using assms(2)
proof (induction calls arbitrary: w)
  case Nil
  show ?case by (simp split: list.splits)
next
  case (Cons c calls)
  obtain i u where c: "c = (i, u)" by (cases c)
  have im: "in_matcher i = m" using Cons.prems c by simp
  obtain h w1 where a: "addHook e i u basePath w = Inr (h, w1)"
    and j: "settingsJson (files w1) = Some (Json (addHookSettings e i (currentSettings basePath w)))"
    and s1: "currentSettings basePath w1 = addHookSettings e i (currentSettings basePath w)"
    using addHook_result[OF assms(1)] by blast
  have g1: "filter (\<lambda>g. matcher g = m) (matcherGroups e (currentSettings basePath w1))
     = (case filter (\<lambda>g. matcher g = m) (matcherGroups e (currentSettings basePath w)) of
        [] \<Rightarrow> [\<lparr> matcher = m, hooks = [hookDefinitionOf i] \<rparr>]
      | g # gs \<Rightarrow> g\<lparr> hooks := hooks g @ [hookDefinitionOf i] \<rparr> # gs)"
    unfolding s1 using im by (rule addHookSettings_groups)
  obtain w' where r: "addHooks e calls basePath w1 = Inr w'"
    and jj: "calls \<noteq> [] \<longrightarrow> settingsJson (files w') = Some (Json (currentSettings basePath w'))"
    and g: "filter (\<lambda>g. matcher g = m) (matcherGroups e (currentSettings basePath w'))
       = (case filter (\<lambda>g. matcher g = m) (matcherGroups e (currentSettings basePath w1)) of
            [] \<Rightarrow> (if calls = [] then []
                   else [\<lparr> matcher = m, hooks = map (\<lambda>c. hookDefinitionOf (fst c)) calls \<rparr>])
          | g # gs \<Rightarrow> g\<lparr> hooks := hooks g @ map (\<lambda>c. hookDefinitionOf (fst c)) calls \<rparr> # gs)"
    using Cons.IH[of w1] Cons.prems by auto
  have w1': "calls = [] \<Longrightarrow> w' = w1" using r by simp
  have "addHooks e (c # calls) basePath w = Inr w'" using a r c by simp
  moreover have "settingsJson (files w') = Some (Json (currentSettings basePath w'))"
    using jj w1' j s1 by (cases "calls = []") auto
  moreover have "filter (\<lambda>g. matcher g = m) (matcherGroups e (currentSettings basePath w'))
       = (case filter (\<lambda>g. matcher g = m) (matcherGroups e (currentSettings basePath w)) of
            [] \<Rightarrow> [\<lparr> matcher = m, hooks = map (\<lambda>c. hookDefinitionOf (fst c)) (c # calls) \<rparr>]
          | g # gs \<Rightarrow> g\<lparr> hooks := hooks g @ map (\<lambda>c. hookDefinitionOf (fst c)) (c # calls) \<rparr> # gs)"
    unfolding g g1 using c by (simp split: list.splits)
  ultimately show ?case by simp
qed

lemmas store_eval = addHook_def addHookSettings_def getConfig_def loadConfig_def saveSettings_def
  fire_def createHook_def hookDefinitionOf_def eventHooks_def setEventHooks_def eventName_def
  createDefaultConfig_def createDefaultSettings_def currentSettings_def matcherGroups_def
  emptyProject_def Let_def

text \<open>
  Claim C3: starting from settings that hold no group for the matcher under the event, any
  non-empty sequence of \<open>addHook\<close> calls for that event and that matcher succeeds and
  leaves, in the persisted settings, exactly one group for the matcher; its actions are those
  of the calls, as many as there were calls and in call order. When the settings already hold
  one group for the matcher, it stays the only one and the new actions follow the ones it had.
\<close>

theorem addHook_single_group:
  assumes "basePath \<noteq> []" and "calls \<noteq> []"
    and "\<forall>c \<in> set calls. in_matcher (fst c) = m"
    and "length (filter (\<lambda>g. matcher g = m) (matcherGroups e (currentSettings basePath w))) \<le> 1"
  shows "\<exists>w' g. addHooks e calls basePath w = Inr w'
     \<and> settingsJson (files w') = Some (Json (currentSettings basePath w'))
     \<and> filter (\<lambda>g. matcher g = m) (matcherGroups e (currentSettings basePath w')) = [g]
     \<and> matcher g = m
     \<and> hooks g = concat (map hooks (filter (\<lambda>g. matcher g = m)
                                      (matcherGroups e (currentSettings basePath w))))
                  @ map (\<lambda>c. hookDefinitionOf (fst c)) calls
     \<and> (filter (\<lambda>g. matcher g = m) (matcherGroups e (currentSettings basePath w)) = [] \<longrightarrow>
          length (hooks g) = length calls
          \<and> map command (hooks g) = map (\<lambda>c. in_command (fst c)) calls)"
proof -
  let ?old = "filter (\<lambda>g. matcher g = m) (matcherGroups e (currentSettings basePath w))"
  obtain w' where r: "addHooks e calls basePath w = Inr w'"
    and j: "settingsJson (files w') = Some (Json (currentSettings basePath w'))"
    and g: "filter (\<lambda>g. matcher g = m) (matcherGroups e (currentSettings basePath w'))
       = (case ?old of
            [] \<Rightarrow> (if calls = [] then []
                   else [\<lparr> matcher = m, hooks = map (\<lambda>c. hookDefinitionOf (fst c)) calls \<rparr>])
          | g # gs \<Rightarrow> g\<lparr> hooks := hooks g @ map (\<lambda>c. hookDefinitionOf (fst c)) calls \<rparr> # gs)"
    using addHooks_groups[OF assms(1) assms(3), of e w] assms(2) by blast
  show ?thesis
  proof (cases ?old)
    case Nil
    have c: "map command (map (\<lambda>c. hookDefinitionOf (fst c)) calls) = map (\<lambda>c. in_command (fst c)) calls"
      by (simp add: hookDefinitionOf_def)
    show ?thesis
      using r j g Nil assms(2) c by simp
  next
    case (Cons g0 gs)
    then have gs: "gs = []" using assms(4) by simp
    have "g0 \<in> set ?old" using Cons by simp
    then have m0: "matcher g0 = m" by simp
    show ?thesis
      using r j g Cons gs m0 by simp
  qed
qed

theorem addHook_single_group_witness:
  "map_sum id (\<lambda>w'. matcherGroups PostToolUse (currentSettings ''/p'' w'))
     (addHooks PostToolUse
        [(\<lparr> in_matcher = ''Edit'', in_command = ''lint --fix $FILE'', in_timeout = None \<rparr>, ''1-a''),
         (\<lparr> in_matcher = ''Edit'', in_command = ''typecheck $FILE'', in_timeout = Some 30 \<rparr>, ''2-b'')]
        ''/p'' emptyProject)
   = Inr [\<lparr> matcher = ''Edit'',
            hooks = [\<lparr> command = ''lint --fix $FILE'', timeout = None \<rparr>,
                     \<lparr> command = ''typecheck $FILE'', timeout = Some 30 \<rparr>] \<rparr>]"
proof -
  let ?calls = "[(\<lparr> in_matcher = ''Edit'', in_command = ''lint --fix $FILE'', in_timeout = None \<rparr>, ''1-a''),
         (\<lparr> in_matcher = ''Edit'', in_command = ''typecheck $FILE'', in_timeout = Some 30 \<rparr>, ''2-b'')]"
  have a: "''/p'' \<noteq> []" "?calls \<noteq> []" "\<forall>c \<in> set ?calls. in_matcher (fst c) = ''Edit''"
    by simp_all
  have b: "matcherGroups PostToolUse (currentSettings ''/p'' emptyProject) = []"
    by (simp add: store_eval)
  then have b': "length (filter (\<lambda>g. matcher g = ''Edit'')
      (matcherGroups PostToolUse (currentSettings ''/p'' emptyProject))) \<le> 1"
    by simp
  obtain w' g where r: "addHooks PostToolUse ?calls ''/p'' emptyProject = Inr w'"
    and f: "filter (\<lambda>g. matcher g = ''Edit'') (matcherGroups PostToolUse (currentSettings ''/p'' w')) = [g]"
    using addHook_single_group[OF a b'] by blast
  have ev: "map_sum id (\<lambda>w'. matcherGroups PostToolUse (currentSettings ''/p'' w'))
     (addHooks PostToolUse ?calls ''/p'' emptyProject)
   = Inr [\<lparr> matcher = ''Edit'',
            hooks = [\<lparr> command = ''lint --fix $FILE'', timeout = None \<rparr>,
                     \<lparr> command = ''typecheck $FILE'', timeout = Some 30 \<rparr>] \<rparr>]"
    by (simp add: store_eval)
  show ?thesis using r f ev by simp
qed

lemma getHooks_event:
  "basePath \<noteq> [] \<Longrightarrow>
   getHooks (Some e) basePath w = Inr (processHooks e (Some (matcherGroups e (currentSettings basePath w))))"
  by (cases e)
    (auto simp: getHooks_def getConfig_def Let_def matcherGroups_def currentSettings_def
      eventHooks_def processHooks_def split: option.splits)

lemma deleteHook_unresolved:
  assumes "basePath \<noteq> []"
    and "findFirst (\<lambda>h. hook_id h = hookId)
           (processHooks e (Some (matcherGroups e (currentSettings basePath w)))) = None"
  shows "deleteHook e hookId basePath w = Inr w"
  using assms by (simp add: deleteHook_def getHooks_event getConfig_def)

lemma processHooks_empty: "processHooks e (Some []) = []"
  by (simp add: processHooks_def)

lemma deleteHook_resolved:
  assumes "basePath \<noteq> []"
    and "findFirst (\<lambda>h. hook_id h = hookId)
           (processHooks e (Some (matcherGroups e (currentSettings basePath w)))) = Some h"
  shows "\<exists>w'. deleteHook e hookId basePath w = Inr w'
     \<and> settingsJson (files w') = Some (Json (currentSettings basePath w'))
     \<and> fired w' = fired w @ [loadConfig basePath (files w')]
     \<and> matcherGroups e (currentSettings basePath w')
         = deleteHookMatchers h (matcherGroups e (currentSettings basePath w))
     \<and> permissions (currentSettings basePath w') = permissions (currentSettings basePath w)
     \<and> mcpServers (currentSettings basePath w') = mcpServers (currentSettings basePath w)"
proof -
  let ?s = "currentSettings basePath w"
  have ne: "matcherGroups e ?s \<noteq> []"
    using assms(2) by (auto simp: processHooks_empty)
  then obtain sect ms where sec: "hooks_section ?s = Some sect"
    and ev: "eventHooks e sect = Some ms" and ms: "matcherGroups e ?s = ms"
    by (auto simp: matcherGroups_def split: option.splits)
  let ?s' = "?s\<lparr> hooks_section := Some (setEventHooks e (deleteHookMatchers h ms) sect) \<rparr>"
  have d: "deleteHook e hookId basePath w = saveSettings ?s' basePath w"
    using assms sec ev ms
    by (simp add: deleteHook_def getHooks_event getConfig_def currentSettings_def)
  obtain w' where "saveSettings ?s' basePath w = Inr w'"
    and "settingsJson (files w') = Some (Json ?s')"
    and "currentSettings basePath w' = ?s'"
    and "fired w' = fired w @ [loadConfig basePath (files w')]"
    using currentSettings_saveSettings[OF assms(1)] by blast
  then show ?thesis
    using d ms by (simp add: matcherGroups_setEventHooks)
qed

lemma length_filter_split:
  "length (filter (\<lambda>x. \<not> P x) xs) + length (filter P xs) = length xs"
  by (induction xs) auto

lemma deleteHookMatchers_count:
  "length (concat (map hooks (deleteHookMatchers h ms)))
   + length (filter (\<lambda>x. hook_matcher x = hook_matcher h \<and> hook_command x = hook_command h)
       (processHooks e (Some ms)))
   = length (concat (map hooks ms))"
proof (induction ms)
  case Nil
  show ?case by (simp add: deleteHookMatchers_def processHooks_def)
next
  case (Cons g gs)
  let ?c = "\<lambda>d. command d \<noteq> hook_command h"
  have split: "length (filter ?c (hooks g)) + length (filter (\<lambda>d. command d = hook_command h) (hooks g))
        = length (hooks g)"
    using length_filter_split[of "\<lambda>d. command d = hook_command h" "hooks g"] by simp
  have flat: "length (filter (\<lambda>x. hook_matcher x = hook_matcher h \<and> hook_command x = hook_command h)
       (map (\<lambda>d. \<lparr> hook_id = eventName e @ ''-'' @ matcher g @ ''-'' @ command d,
              hook_event = e, hook_matcher = matcher g,
              hook_command = command d, hook_timeout = timeout d \<rparr>) (hooks g)))
      = (if matcher g = hook_matcher h
         then length (filter (\<lambda>d. command d = hook_command h) (hooks g)) else 0)"
    by (simp add: filter_map comp_def)
  have IH: "length (concat (map hooks (deleteHookMatchers h gs)))
   + length (filter (\<lambda>x. hook_matcher x = hook_matcher h \<and> hook_command x = hook_command h)
       (processHooks e (Some gs)))
   = length (concat (map hooks gs))" by (rule Cons.IH)
  have p: "processHooks e (Some (g # gs))
        = map (\<lambda>d. \<lparr> hook_id = eventName e @ ''-'' @ matcher g @ ''-'' @ command d,
              hook_event = e, hook_matcher = matcher g,
              hook_command = command d, hook_timeout = timeout d \<rparr>) (hooks g)
          @ processHooks e (Some gs)"
    by (simp add: processHooks_def)
  have dm: "length (concat (map hooks (deleteHookMatchers h (g # gs))))
        = (if matcher g = hook_matcher h then length (filter ?c (hooks g)) else length (hooks g))
          + length (concat (map hooks (deleteHookMatchers h gs)))"
    by (simp add: deleteHookMatchers_def)
  show ?case
    unfolding p dm using IH split flat by (simp del: filter_append add: filter_append)
qed

lemma matcherGroups_other_event:
  "e' \<noteq> e \<Longrightarrow> hooks_section s = Some sect \<Longrightarrow>
   matcherGroups e' (s\<lparr> hooks_section := Some (setEventHooks e ms sect) \<rparr>) = matcherGroups e' s"
  by (cases e; cases e') (simp_all add: matcherGroups_def setEventHooks_def eventHooks_def)

text \<open>
  Claim C6, as stated, fails: \<open>deleteHook\<close> does not remove a single action when several
  hooks share the identity. Two \<open>addHook\<close> calls with the same matcher and command leave one
  group with two actions; \<open>deleteHook\<close> with their identity removes both, and the group.
\<close>

theorem deleteHook_counterexample:
  "map_sum id (\<lambda>w'. matcherGroups PreToolUse (currentSettings ''/p'' w'))
     (addHooks PreToolUse
        [(\<lparr> in_matcher = ''Edit'', in_command = ''lint'', in_timeout = None \<rparr>, ''1-a''),
         (\<lparr> in_matcher = ''Edit'', in_command = ''lint'', in_timeout = None \<rparr>, ''2-b'')]
        ''/p'' emptyProject)
   = Inr [\<lparr> matcher = ''Edit'',
            hooks = [\<lparr> command = ''lint'', timeout = None \<rparr>,
                     \<lparr> command = ''lint'', timeout = None \<rparr>] \<rparr>]
   \<and> map_sum id (\<lambda>w'. matcherGroups PreToolUse (currentSettings ''/p'' w'))
     (case addHooks PreToolUse
        [(\<lparr> in_matcher = ''Edit'', in_command = ''lint'', in_timeout = None \<rparr>, ''1-a''),
         (\<lparr> in_matcher = ''Edit'', in_command = ''lint'', in_timeout = None \<rparr>, ''2-b'')]
        ''/p'' emptyProject of
        Inl err \<Rightarrow> Inl err
      | Inr w \<Rightarrow> deleteHook PreToolUse ''PreToolUse-Edit-lint'' ''/p'' w)
   = Inr []"
  by (simp add: store_eval deleteHook_def getHooks_def processHooks_def deleteHookMatchers_def)

lemma findFirst_Some_mem: "findFirst p xs = Some x \<Longrightarrow> x \<in> set xs \<and> p x"
  by (induction xs) (auto split: if_splits)

lemma findFirst_exists: "\<exists>x \<in> set xs. p x \<Longrightarrow> \<exists>y. findFirst p xs = Some y"
  by (induction xs) auto

lemma findFirst_none: "\<forall>x \<in> set xs. \<not> p x \<Longrightarrow> findFirst p xs = None"
  by (induction xs) auto

text \<open>
  Claim C6, amended: let the hook identity be one that no other matcher and command of the
  event share (every hook of the event with that identity has the matcher \<open>m\<close> and the
  command \<open>c\<close>). If a hook of the event has the identity, \<open>deleteHook\<close> removes every action
  with command \<open>c\<close> from every group of the event with matcher \<open>m\<close> (exactly one action when
  one hook of the event has that matcher and command), removes the groups of the event that
  have no action, persists the settings and raises one notification; the other event, the
  permissions and the servers are unchanged. If no hook of the event has the identity, the call
  leaves the store as it was and raises no notification.
\<close>

theorem deleteHook_effect:
  assumes "basePath \<noteq> []"
  shows "((\<forall>h \<in> set (processHooks e (Some (matcherGroups e (currentSettings basePath w)))).
             hook_id h \<noteq> hookId)
          \<longrightarrow> deleteHook e hookId basePath w = Inr w)
     \<and> ((\<exists>h \<in> set (processHooks e (Some (matcherGroups e (currentSettings basePath w)))).
             hook_id h = hookId)
         \<and> (\<forall>h \<in> set (processHooks e (Some (matcherGroups e (currentSettings basePath w)))).
             hook_id h = hookId \<longrightarrow> hook_matcher h = m \<and> hook_command h = c)
          \<longrightarrow> (\<exists>w'. deleteHook e hookId basePath w = Inr w'
                \<and> settingsJson (files w') = Some (Json (currentSettings basePath w'))
                \<and> fired w' = fired w @ [loadConfig basePath (files w')]
                \<and> matcherGroups e (currentSettings basePath w')
                    = filter (\<lambda>g. hooks g \<noteq> [])
                        (map (\<lambda>g. if matcher g = m
                                  then g\<lparr> hooks := filter (\<lambda>d. command d \<noteq> c) (hooks g) \<rparr>
                                  else g)
                           (matcherGroups e (currentSettings basePath w)))
                \<and> (\<forall>e'. e' \<noteq> e \<longrightarrow> matcherGroups e' (currentSettings basePath w')
                                      = matcherGroups e' (currentSettings basePath w))
                \<and> permissions (currentSettings basePath w') = permissions (currentSettings basePath w)
                \<and> mcpServers (currentSettings basePath w') = mcpServers (currentSettings basePath w)
                \<and> (length (filter (\<lambda>x. hook_matcher x = m \<and> hook_command x = c)
                      (processHooks e (Some (matcherGroups e (currentSettings basePath w))))) = 1
                    \<longrightarrow> length (concat (map hooks (matcherGroups e (currentSettings basePath w')))) + 1
                        = length (concat (map hooks (matcherGroups e (currentSettings basePath w)))))))"
proof (intro conjI impI)
  assume "\<forall>h \<in> set (processHooks e (Some (matcherGroups e (currentSettings basePath w)))).
             hook_id h \<noteq> hookId"
  then have "findFirst (\<lambda>h. hook_id h = hookId)
            (processHooks e (Some (matcherGroups e (currentSettings basePath w)))) = None"
    by (rule findFirst_none)
  then show "deleteHook e hookId basePath w = Inr w"
    using assms by (simp add: deleteHook_unresolved)
next
  let ?s = "currentSettings basePath w"
  let ?hs = "processHooks e (Some (matcherGroups e ?s))"
  assume a: "(\<exists>h \<in> set ?hs. hook_id h = hookId)
         \<and> (\<forall>h \<in> set ?hs. hook_id h = hookId \<longrightarrow> hook_matcher h = m \<and> hook_command h = c)"
  then obtain h where f: "findFirst (\<lambda>h. hook_id h = hookId) ?hs = Some h"
    using findFirst_exists[of ?hs "\<lambda>h. hook_id h = hookId"] by blast
  then have "h \<in> set ?hs \<and> hook_id h = hookId" by (rule findFirst_Some_mem)
  then have hm: "hook_matcher h = m" and hc: "hook_command h = c" using a by blast+
  obtain w' where r: "deleteHook e hookId basePath w = Inr w'"
    and j: "settingsJson (files w') = Some (Json (currentSettings basePath w'))"
    and n: "fired w' = fired w @ [loadConfig basePath (files w')]"
    and g: "matcherGroups e (currentSettings basePath w') = deleteHookMatchers h (matcherGroups e ?s)"
    and pm: "permissions (currentSettings basePath w') = permissions ?s"
      "mcpServers (currentSettings basePath w') = mcpServers ?s"
    using deleteHook_resolved[OF assms f] by blast
  have ne: "matcherGroups e ?s \<noteq> []"
    using f by (auto simp: processHooks_empty)
  then obtain sect ms where sec: "hooks_section ?s = Some sect"
    and ev: "eventHooks e sect = Some ms" and ms: "matcherGroups e ?s = ms"
    by (auto simp: matcherGroups_def split: option.splits)
  let ?s' = "?s\<lparr> hooks_section := Some (setEventHooks e (deleteHookMatchers h ms) sect) \<rparr>"
  have d: "deleteHook e hookId basePath w = saveSettings ?s' basePath w"
    using assms f sec ev ms
    by (simp add: deleteHook_def getHooks_event getConfig_def currentSettings_def)
  obtain w2 where r2: "saveSettings ?s' basePath w = Inr w2"
    and c2: "currentSettings basePath w2 = ?s'"
    using currentSettings_saveSettings[OF assms] by blast
  have "w2 = w'" using d r r2 by simp
  then have cs: "currentSettings basePath w' = ?s'" using c2 by simp
  have other: "\<forall>e'. e' \<noteq> e \<longrightarrow> matcherGroups e' (currentSettings basePath w') = matcherGroups e' ?s"
    using cs sec by (simp add: matcherGroups_other_event)
  have grp: "matcherGroups e (currentSettings basePath w')
                    = filter (\<lambda>g. hooks g \<noteq> [])
                        (map (\<lambda>g. if matcher g = m
                                  then g\<lparr> hooks := filter (\<lambda>d. command d \<noteq> c) (hooks g) \<rparr>
                                  else g)
                           (matcherGroups e ?s))"
    using g unfolding deleteHookMatchers_def hm hc by simp
  have cnt: "length (filter (\<lambda>x. hook_matcher x = m \<and> hook_command x = c) ?hs) = 1
        \<longrightarrow> length (concat (map hooks (matcherGroups e (currentSettings basePath w')))) + 1
            = length (concat (map hooks (matcherGroups e ?s)))"
    using deleteHookMatchers_count[of h "matcherGroups e ?s" e] g unfolding hm hc by simp
  show "\<exists>w'. deleteHook e hookId basePath w = Inr w'
                \<and> settingsJson (files w') = Some (Json (currentSettings basePath w'))
                \<and> fired w' = fired w @ [loadConfig basePath (files w')]
                \<and> matcherGroups e (currentSettings basePath w')
                    = filter (\<lambda>g. hooks g \<noteq> [])
                        (map (\<lambda>g. if matcher g = m
                                  then g\<lparr> hooks := filter (\<lambda>d. command d \<noteq> c) (hooks g) \<rparr>
                                  else g)
                           (matcherGroups e ?s))
                \<and> (\<forall>e'. e' \<noteq> e \<longrightarrow> matcherGroups e' (currentSettings basePath w')
                                      = matcherGroups e' ?s)
                \<and> permissions (currentSettings basePath w') = permissions ?s
                \<and> mcpServers (currentSettings basePath w') = mcpServers ?s
                \<and> (length (filter (\<lambda>x. hook_matcher x = m \<and> hook_command x = c) ?hs) = 1
                    \<longrightarrow> length (concat (map hooks (matcherGroups e (currentSettings basePath w')))) + 1
                        = length (concat (map hooks (matcherGroups e ?s))))"
    using r j n grp other pm cnt by blast
qed

theorem deleteHook_effect_witness:
  "processHooks PreToolUse (Some (matcherGroups PreToolUse (currentSettings ''/p'' hookedProject)))
   = [\<lparr> hook_id = ''PreToolUse-Edit-lint'', hook_event = PreToolUse, hook_matcher = ''Edit'',
         hook_command = ''lint'', hook_timeout = None \<rparr>,
      \<lparr> hook_id = ''PreToolUse-Edit-fmt'', hook_event = PreToolUse, hook_matcher = ''Edit'',
         hook_command = ''fmt'', hook_timeout = Some 10 \<rparr>,
      \<lparr> hook_id = ''PreToolUse-Write-lint'', hook_event = PreToolUse, hook_matcher = ''Write'',
         hook_command = ''lint'', hook_timeout = None \<rparr>]
   \<and> map_sum id (\<lambda>w'. (matcherGroups PreToolUse (currentSettings ''/p'' w'), length (fired w')))
       (deleteHook PreToolUse ''PreToolUse-Write-lint'' ''/p'' hookedProject)
     = Inr ([\<lparr> matcher = ''Edit'',
               hooks = [\<lparr> command = ''lint'', timeout = None \<rparr>,
                        \<lparr> command = ''fmt'', timeout = Some 10 \<rparr>] \<rparr>], 1)
   \<and> deleteHook PreToolUse ''PreToolUse-Edit-test'' ''/p'' hookedProject = Inr hookedProject"
proof -
  let ?hs = "processHooks PreToolUse (Some (matcherGroups PreToolUse (currentSettings ''/p'' hookedProject)))"
  have b: "''/p'' \<noteq> []" by simp
  have g: "matcherGroups PreToolUse (currentSettings ''/p'' hookedProject)
        = [\<lparr> matcher = ''Edit'',
                      hooks = [\<lparr> command = ''lint'', timeout = None \<rparr>,
                               \<lparr> command = ''fmt'', timeout = Some 10 \<rparr>] \<rparr>,
           \<lparr> matcher = ''Write'', hooks = [\<lparr> command = ''lint'', timeout = None \<rparr>] \<rparr>]"
    by (simp add: store_eval hookedProject_def)
  have hs: "?hs
   = [\<lparr> hook_id = ''PreToolUse-Edit-lint'', hook_event = PreToolUse, hook_matcher = ''Edit'',
         hook_command = ''lint'', hook_timeout = None \<rparr>,
      \<lparr> hook_id = ''PreToolUse-Edit-fmt'', hook_event = PreToolUse, hook_matcher = ''Edit'',
         hook_command = ''fmt'', hook_timeout = Some 10 \<rparr>,
      \<lparr> hook_id = ''PreToolUse-Write-lint'', hook_event = PreToolUse, hook_matcher = ''Write'',
         hook_command = ''lint'', hook_timeout = None \<rparr>]"
    unfolding g by (simp add: processHooks_def eventName_def)
  have ex: "\<exists>h \<in> set ?hs. hook_id h = ''PreToolUse-Write-lint''"
    unfolding hs by simp
  have un: "\<forall>h \<in> set ?hs. hook_id h = ''PreToolUse-Write-lint''
              \<longrightarrow> hook_matcher h = ''Write'' \<and> hook_command h = ''lint''"
    unfolding hs by simp
  have no: "\<forall>h \<in> set ?hs. hook_id h \<noteq> ''PreToolUse-Edit-test''"
    unfolding hs by simp
  note t1 = deleteHook_effect[OF b, of PreToolUse hookedProject "''PreToolUse-Write-lint''" "''Write''" "''lint''"]
  note t2 = deleteHook_effect[OF b, of PreToolUse hookedProject "''PreToolUse-Edit-test''"]
  obtain w' where r: "deleteHook PreToolUse ''PreToolUse-Write-lint'' ''/p'' hookedProject = Inr w'"
    and n: "fired w' = fired hookedProject @ [loadConfig ''/p'' (files w')]"
    and m: "matcherGroups PreToolUse (currentSettings ''/p'' w')
                    = filter (\<lambda>g. hooks g \<noteq> [])
                        (map (\<lambda>g. if matcher g = ''Write''
                                  then g\<lparr> hooks := filter (\<lambda>d. command d \<noteq> ''lint'') (hooks g) \<rparr>
                                  else g)
                           (matcherGroups PreToolUse (currentSettings ''/p'' hookedProject)))"
    using t1 ex un by blast
  have m': "matcherGroups PreToolUse (currentSettings ''/p'' w')
      = [\<lparr> matcher = ''Edit'',
               hooks = [\<lparr> command = ''lint'', timeout = None \<rparr>,
                        \<lparr> command = ''fmt'', timeout = Some 10 \<rparr>] \<rparr>]"
    unfolding m g by simp
  have n': "length (fired w') = 1"
    using n by (simp add: hookedProject_def emptyProject_def)
  have u: "deleteHook PreToolUse ''PreToolUse-Edit-test'' ''/p'' hookedProject = Inr hookedProject"
    using t2 no by blast
  show ?thesis using hs r m' n' u by simp
qed

text \<open>
  The identity joins event, matcher and command with hyphens, so two hooks with different
  matchers can share it. \<open>deleteHook\<close> then acts on the first of them in the order of the
  settings: asked for the hook of matcher \<open>a-b\<close> and command \<open>c\<close>, it removes the hook of
  matcher \<open>a\<close> and command \<open>b-c\<close>.
\<close>

lemma deleteHook_shared_identity:
  "map_sum id (\<lambda>w'. matcherGroups PreToolUse (currentSettings ''/p'' w'))
     (case addHooks PreToolUse
        [(\<lparr> in_matcher = ''a'', in_command = ''b-c'', in_timeout = None \<rparr>, ''1-a''),
         (\<lparr> in_matcher = ''a-b'', in_command = ''c'', in_timeout = None \<rparr>, ''2-b'')]
        ''/p'' emptyProject of
        Inl err \<Rightarrow> Inl err
      | Inr w \<Rightarrow> deleteHook PreToolUse ''PreToolUse-a-b-c'' ''/p'' w)
   = Inr [\<lparr> matcher = ''a-b'', hooks = [\<lparr> command = ''c'', timeout = None \<rparr>] \<rparr>]"
  by (simp add: store_eval deleteHook_def getHooks_def processHooks_def deleteHookMatchers_def)

section \<open>Creating artifacts\<close>



lemma map_of_writeEntry_other: "k' \<noteq> k \<Longrightarrow> map_of (writeEntry k v es) k' = map_of es k'"
  by (induction es) auto










section \<open>Change notification\<close>

text \<open>
  Every mutating method other than \<open>initializeClaudeConfig\<close>, when it succeeds, either
  leaves the store as it was or raises exactly one notification, which carries the
  configuration that a load from the new files returns. Deleting a name that no listed
  artifact has leaves the store as it was.
\<close>

lemma saveSettings_raisedOne:
  "saveSettings s basePath w = Inr w' \<Longrightarrow> raisedOne basePath w w'"
  by (auto simp: saveSettings_def Let_def fire_def raisedOne_def split: if_splits)

lemma settings_mutations_notify:
  "addHook e i u basePath w = Inr (h, w') \<Longrightarrow> raisedOne basePath w w'"
  "deleteHook e hookId basePath w = Inr w' \<Longrightarrow> w' = w \<or> raisedOne basePath w w'"
  "setPermissions p basePath w = Inr w' \<Longrightarrow> raisedOne basePath w w'"
  "addPermission t rule basePath w = Inr w' \<Longrightarrow> raisedOne basePath w w'"
  "removePermission t rule basePath w = Inr w' \<Longrightarrow> raisedOne basePath w w'"
  "addMcpServer server cfg basePath w = Inr w' \<Longrightarrow> raisedOne basePath w w'"
  "removeMcpServer server basePath w = Inr w' \<Longrightarrow> w' = w \<or> raisedOne basePath w w'"
  "saveClaudeMd text basePath w = Inr w' \<Longrightarrow> raisedOne basePath w w'"
  by (auto simp: addHook_def deleteHook_def setPermissions_def addPermission_def
      removePermission_def addMcpServer_def removeMcpServer_def saveClaudeMd_def Let_def
      fire_def raisedOne_def
      dest: saveSettings_raisedOne split: sum.splits option.splits if_splits prod.splits)

lemma loadConfig_artifacts:
  "loadConfig basePath (fs\<lparr> commandsFiles := c \<rparr>) = loadConfig basePath fs"
  "loadConfig basePath (fs\<lparr> skillsEntries := k \<rparr>) = loadConfig basePath fs"
  "loadConfig basePath (fs\<lparr> agentsFiles := a \<rparr>) = loadConfig basePath fs"
  "loadConfig basePath (fs\<lparr> claudeDir := b \<rparr>) = loadConfig basePath fs"
  by (simp_all add: loadConfig_def)

lemma artifact_mutations_notify:
  "createCommand name description content hint basePath w = Returned c w' \<Longrightarrow> raisedOne basePath w w'"
  "updateCommand name updates basePath w = Inr w' \<Longrightarrow> raisedOne basePath w w'"
  "deleteCommand name basePath w = Inr w' \<Longrightarrow> w' = w \<or> raisedOne basePath w w'"
  "createSkill name description content tools model basePath w = Returned s w' \<Longrightarrow> raisedOne basePath w w'"
  "deleteSkill name basePath w = Inr w' \<Longrightarrow> w' = w \<or> raisedOne basePath w w'"
  "createAgent name description content tools model basePath w = Returned a w' \<Longrightarrow> raisedOne basePath w w'"
  "deleteAgent name basePath w = Inr w' \<Longrightarrow> w' = w \<or> raisedOne basePath w w'"
  by (auto simp: createCommand_def updateCommand_def deleteCommand_def createSkill_def
      deleteSkill_def createAgent_def deleteAgent_def getCommands_def getSkills_def getAgents_def
      getConfig_def Let_def fire_def raisedOne_def loadConfig_artifacts
      split: sum.splits option.splits if_splits)

lemma findFirst_absent: "name \<notin> f ` set xs \<Longrightarrow> findFirst (\<lambda>x. f x = name) xs = None"
  by (induction xs) auto

lemma delete_absent_noop:
  "getCommands basePath w = Inr cs \<Longrightarrow> name \<notin> cmd_name ` set cs \<Longrightarrow>
     deleteCommand name basePath w = Inr w"
  "getSkills basePath w = Inr ss \<Longrightarrow> name \<notin> skill_name ` set ss \<Longrightarrow>
     deleteSkill name basePath w = Inr w"
  "getAgents basePath w = Inr as \<Longrightarrow> name \<notin> agent_name ` set as \<Longrightarrow>
     deleteAgent name basePath w = Inr w"
proof -
  show "getCommands basePath w = Inr cs \<Longrightarrow> name \<notin> cmd_name ` set cs \<Longrightarrow>
     deleteCommand name basePath w = Inr w"
    using findFirst_absent[of name cmd_name cs]
    by (simp add: deleteCommand_def Let_def)
  show "getSkills basePath w = Inr ss \<Longrightarrow> name \<notin> skill_name ` set ss \<Longrightarrow>
     deleteSkill name basePath w = Inr w"
    using findFirst_absent[of name skill_name ss]
    by (simp add: deleteSkill_def Let_def)
  show "getAgents basePath w = Inr as \<Longrightarrow> name \<notin> agent_name ` set as \<Longrightarrow>
     deleteAgent name basePath w = Inr w"
    using findFirst_absent[of name agent_name as]
    by (simp add: deleteAgent_def Let_def)
qed

text \<open>
  Claim C8 at the failing input: a project root with a \<open>CLAUDE.md\<close> and no \<open>.claude\<close>
  directory. \<open>initializeClaudeConfig\<close> succeeds and changes the files; the one notification
  it raises carries the default configuration, whose \<open>claudeMdContent\<close> is missing, while a
  load from the files returns the text of \<open>CLAUDE.md\<close>.
\<close>

theorem initialize_notifies_default_config:
  "map_sum id (\<lambda>w'. (files w' \<noteq> files projectWithClaudeMd, fired w',
                      claudeMdContent (loadConfig ''/p'' (files w'))))
     (initializeClaudeConfig ''/p'' projectWithClaudeMd)
   = Inr (True, [createDefaultConfig ''/p''], Some ''# Notes'')
   \<and> claudeMdContent (createDefaultConfig ''/p'') = None
   \<and> map_sum id (\<lambda>w'. raisedOne ''/p'' projectWithClaudeMd w')
       (initializeClaudeConfig ''/p'' projectWithClaudeMd) = Inr False"
  by (simp add: initializeClaudeConfig_def projectWithClaudeMd_def emptyProject_def Let_def
      fire_def loadConfig_def createDefaultConfig_def createDefaultSettings_def orEmpty_def
      raisedOne_def)

section \<open>Encoding and decoding\<close>

lemma findSeparator_skip:
  "CHR ''\<newline>'' \<notin> set u \<Longrightarrow>
   findSeparator (u @ rest) = (case findSeparator rest of None \<Rightarrow> None | Some (f, b) \<Rightarrow> Some (u @ f, b))"
proof (induction u)
  case Nil
  show ?case by (simp split: option.splits)
next
  case (Cons c cs)
  then have "c \<noteq> CHR ''\<newline>''" by auto
  then have "\<not> startsWith ((c # cs) @ rest) ''\<newline>---\<newline>''" by (simp add: startsWith_def)
  then show ?case using Cons by (simp split: option.splits)
qed

lemma findSeparator_here: "findSeparator (''\<newline>---\<newline>'' @ body) = Some ([], body)"
  by (simp add: startsWith_def)

lemma findSeparator_lines:
  assumes "ls \<noteq> []" and "\<forall>l \<in> set ls. CHR ''\<newline>'' \<notin> set l \<and> l \<noteq> [] \<and> hd l \<noteq> CHR ''-''"
  shows "findSeparator (join ''\<newline>'' ls @ ''\<newline>---\<newline>'' @ body) = Some (join ''\<newline>'' ls, body)"
  using assms
proof (induction "''\<newline>''" ls rule: join.induct)
  case 1
  then show ?case by simp
next
  case (2 l)
  then have "CHR ''\<newline>'' \<notin> set l" by simp
  then show ?case
    using findSeparator_skip[of l "''\<newline>---\<newline>'' @ body"] findSeparator_here[of body] by simp
next
  case (3 l l' ls')
  let ?J = "join ''\<newline>'' (l' # ls')"
  have l: "CHR ''\<newline>'' \<notin> set l" using 3(3) by simp
  obtain x xs where l': "l' = x # xs" and x: "x \<noteq> CHR ''-''" using 3(3) by (cases l') auto
  have IH: "findSeparator (?J @ ''\<newline>---\<newline>'' @ body) = Some (?J, body)"
    using 3 by simp
  obtain r where J: "?J @ ''\<newline>---\<newline>'' @ body = x # r"
    using l' by (cases ls') auto
  have "findSeparator (CHR ''\<newline>'' # (?J @ ''\<newline>---\<newline>'' @ body)) = Some (CHR ''\<newline>'' # ?J, body)"
    using IH x unfolding J by (simp add: startsWith_def)
  then have "findSeparator (l @ CHR ''\<newline>'' # (?J @ ''\<newline>---\<newline>'' @ body))
        = Some (l @ CHR ''\<newline>'' # ?J, body)"
    using findSeparator_skip[OF l, of "CHR ''\<newline>'' # (?J @ ''\<newline>---\<newline>'' @ body)"] by simp
  then show ?case by simp
qed

lemma join_append:
  "xs \<noteq> [] \<Longrightarrow> ys \<noteq> [] \<Longrightarrow> join sep (xs @ ys) = join sep xs @ sep @ join sep ys"
proof (induction sep xs rule: join.induct)
  case (1 sep)
  then show ?case by simp
next
  case (2 sep x)
  then show ?case by (cases ys) simp_all
next
  case (3 sep x y ys')
  then show ?case by simp
qed

lemma encode_shape:
  assumes "ls \<noteq> []"
  shows "join ''\<newline>'' ([''---''] @ ls @ [''---'', []]) @ content
         = ''---\<newline>'' @ join ''\<newline>'' ls @ ''\<newline>---\<newline>'' @ content"
proof -
  have "join ''\<newline>'' (ls @ [''---'', []]) = join ''\<newline>'' ls @ ''\<newline>'' @ join ''\<newline>'' [''---'', []]"
    using assms by (simp add: join_append)
  moreover have "join ''\<newline>'' ([''---''] @ (ls @ [''---'', []]))
      = join ''\<newline>'' [''---''] @ ''\<newline>'' @ join ''\<newline>'' (ls @ [''---'', []])"
    by (rule join_append) simp_all
  ultimately show ?thesis by simp
qed

lemma matchFrontmatter_encoded:
  assumes "ls \<noteq> []" and "\<forall>l \<in> set ls. CHR ''\<newline>'' \<notin> set l \<and> l \<noteq> [] \<and> hd l \<noteq> CHR ''-''"
  shows "matchFrontmatter (join ''\<newline>'' ([''---''] @ ls @ [''---'', []]) @ content)
         = Some (join ''\<newline>'' ls, content)"
  unfolding encode_shape[OF assms(1)]
  using findSeparator_lines[OF assms, of content]
  by (simp add: matchFrontmatter_def startsWith_def)

lemma split_join_lines:
  assumes "ls \<noteq> []" and "\<forall>l \<in> set ls. d \<notin> set l"
  shows "split d (join [d] ls) = ls"
  using assms
proof (induction "[d]" ls rule: join.induct)
  case 1
  then show ?case by simp
next
  case (2 l)
  then show ?case by (simp add: split_none)
next
  case (3 l l' ls')
  have "split d (l @ d # join [d] (l' # ls')) = split d l @ split d (join [d] (l' # ls'))"
    by (rule split_append)
  then show ?case using 3 by (simp add: split_none)
qed


lemma isWhiteSpace_space: "isWhiteSpace CHR '' ''"
  by (simp add: isWhiteSpace_def)

lemma isLineTerminator_newline: "isLineTerminator CHR ''\<newline>''"
  by (simp add: isLineTerminator_def)

lemma headerValue_dropWhile: "headerValue v \<Longrightarrow> dropWhile isWhiteSpace v = v"
  using trim_fixed_iff[of v] by (auto simp: headerValue_def intro: dropWhile_hd_id)

lemma headerValue_no_newline: "headerValue v \<Longrightarrow> CHR ''\<newline>'' \<notin> set v"
  using isLineTerminator_newline by (auto simp: headerValue_def list_ex_iff)

lemma matchLine_kv:
  assumes "CHR '':'' \<notin> set key" and "key \<noteq> []" and "headerValue v"
  shows "matchLine (key @ '': '' @ v) = Some (key, v)"
proof -
  have k: "\<And>x. x \<in> set key \<Longrightarrow> x \<noteq> CHR '':''" using assms(1) by auto
  have t: "takeWhile (\<lambda>c. c \<noteq> CHR '':'') (key @ '': '' @ v) = key"
    using k by (simp add: takeWhile_append2)
  have d: "dropWhile (\<lambda>c. c \<noteq> CHR '':'') (key @ '': '' @ v) = '': '' @ v"
    using k by (simp add: dropWhile_append2)
  have w: "dropWhile isWhiteSpace (tl ('': '' @ v)) = v"
    using headerValue_dropWhile[OF assms(3)] by (simp add: isWhiteSpace_space)
  have n: "\<not> list_ex isLineTerminator v" using assms(3) by (simp add: headerValue_def)
  show ?thesis
    unfolding matchLine_def Let_def t d w using assms(2) n by simp
qed

lemma addLine_kv:
  assumes "CHR '':'' \<notin> set key" and "key \<noteq> []" and "trim key = key" and "headerValue v"
  shows "addLine m (key @ '': '' @ v) = m(key \<mapsto> v)"
  using matchLine_kv[OF assms(1,2,4)] assms(3,4) by (simp add: addLine_def headerValue_def)

lemma foldl_addLine:
  assumes "\<forall>(k, v) \<in> set kvs. CHR '':'' \<notin> set k \<and> k \<noteq> [] \<and> trim k = k \<and> headerValue v"
  shows "foldl addLine m (map (\<lambda>(k, v). k @ '': '' @ v) kvs) = foldl (\<lambda>m (k, v). m(k \<mapsto> v)) m kvs"
  using assms
proof (induction kvs arbitrary: m)
  case Nil
  show ?case by simp
next
  case (Cons kv kvs)
  obtain k v where kv: "kv = (k, v)" by (cases kv)
  have "addLine m (k @ '': '' @ v) = m(k \<mapsto> v)"
    using Cons.prems kv by (intro addLine_kv) auto
  moreover have "foldl addLine (m(k \<mapsto> v)) (map (\<lambda>(k, v). k @ '': '' @ v) kvs)
      = foldl (\<lambda>m (k, v). m(k \<mapsto> v)) (m(k \<mapsto> v)) kvs"
    using Cons.prems by (intro Cons.IH) auto
  ultimately show ?case using kv by (simp del: fun_upd_apply)
qed

lemma header_roundtrip:
  assumes "kvs \<noteq> []"
    and "\<forall>(k, v) \<in> set kvs. CHR '':'' \<notin> set k \<and> k \<noteq> [] \<and> trim k = k \<and> headerValue v
           \<and> CHR ''\<newline>'' \<notin> set k \<and> hd k \<noteq> CHR ''-''"
  shows "\<exists>fm. matchFrontmatter (join ''\<newline>'' ([''---''] @ map (\<lambda>(k, v). k @ '': '' @ v) kvs @ [''---'', []])
                  @ content) = Some (fm, content)
           \<and> parseFrontmatter fm = foldl (\<lambda>m (k, v). m(k \<mapsto> v)) Map.empty kvs"
proof -
  let ?ls = "map (\<lambda>(k, v). k @ '': '' @ v) kvs"
  have ne: "?ls \<noteq> []" using assms(1) by simp
  have nl: "\<forall>l \<in> set ?ls. CHR ''\<newline>'' \<notin> set l"
    using assms(2) headerValue_no_newline by fastforce
  have st: "\<forall>l \<in> set ?ls. l \<noteq> [] \<and> hd l \<noteq> CHR ''-''"
    using assms(2) by fastforce
  have m: "matchFrontmatter (join ''\<newline>'' ([''---''] @ ?ls @ [''---'', []]) @ content)
        = Some (join ''\<newline>'' ?ls, content)"
    using nl st by (intro matchFrontmatter_encoded[OF ne]) auto
  have "split CHR ''\<newline>'' (join ''\<newline>'' ?ls) = ?ls"
    using split_join_lines[OF ne, of "CHR ''\<newline>''"] nl by simp
  then have "parseFrontmatter (join ''\<newline>'' ?ls) = foldl addLine Map.empty ?ls"
    by (simp add: parseFrontmatter_def)
  also have "\<dots> = foldl (\<lambda>m (k, v). m(k \<mapsto> v)) Map.empty kvs"
    using assms(2) by (intro foldl_addLine) auto
  finally show ?thesis using m by blast
qed


lemma trim_leading_space: "trim (CHR '' '' # w) = trim w"
  by (simp add: trim_def isWhiteSpace_space)

lemma map_trim_split_space:
  "map trim (split CHR '','' (CHR '' '' # s)) = map trim (split CHR '','' s)"
proof -
  obtain w ws where w: "split CHR '','' s = w # ws"
    using split_nonempty[of "CHR '',''" s] by (cases "split CHR '','' s") auto
  then show ?thesis by (simp add: trim_leading_space)
qed

lemma validTool_trim: "validTool t \<Longrightarrow> trim t = t"
  by (simp add: validTool_def headerValue_def)

lemma split_join_tools:
  assumes "ts \<noteq> []" and "list_all validTool ts"
  shows "map trim (split CHR '','' (join '', '' ts)) = ts"
  using assms
proof (induction "'', ''" ts rule: join.induct)
  case 1
  then show ?case by simp
next
  case (2 t)
  then have "CHR '','' \<notin> set t" and "trim t = t" by (simp_all add: validTool_def headerValue_def)
  then show ?case by (simp add: split_none)
next
  case (3 t t' ts')
  have c: "CHR '','' \<notin> set t" and tt: "trim t = t"
    using 3(3) by (simp_all add: validTool_def headerValue_def)
  let ?J = "join '', '' (t' # ts')"
  have IH: "map trim (split CHR '','' ?J) = t' # ts'" using 3 by simp
  have "split CHR '','' (t @ CHR '','' # (CHR '' '' # ?J))
        = split CHR '','' t @ split CHR '','' (CHR '' '' # ?J)"
    by (rule split_append)
  then have "map trim (split CHR '','' (t @ CHR '','' # (CHR '' '' # ?J)))
        = [t] @ map trim (split CHR '','' (CHR '' '' # ?J))"
    using c tt by (simp add: split_none del: split.simps)
  then have "map trim (split CHR '','' (t @ CHR '','' # (CHR '' '' # ?J))) = t # t' # ts'"
    using IH by (simp add: map_trim_split_space del: split.simps)
  moreover have "join '', '' (t # t' # ts') = t @ CHR '','' # (CHR '' '' # ?J)" by simp
  ultimately show ?case by (simp only:)
qed

lemma join_tools_facts:
  assumes "ts \<noteq> []" and "list_all validTool ts"
  shows "join '', '' ts \<noteq> [] \<and> hd (join '', '' ts) = hd (hd ts)
         \<and> last (join '', '' ts) = last (last ts)
         \<and> \<not> list_ex isLineTerminator (join '', '' ts)"
  using assms
proof (induction "'', ''" ts rule: join.induct)
  case 1
  then show ?case by simp
next
  case (2 t)
  then show ?case by (simp add: validTool_def headerValue_def)
next
  case (3 t t' ts')
  have t: "t \<noteq> []" "\<not> list_ex isLineTerminator t"
    using 3(3) by (simp_all add: validTool_def headerValue_def)
  have IH: "join '', '' (t' # ts') \<noteq> [] \<and> last (join '', '' (t' # ts')) = last (last (t' # ts'))
         \<and> \<not> list_ex isLineTerminator (join '', '' (t' # ts'))"
    using 3 by simp
  have sep: "\<not> isLineTerminator CHR '',''" "\<not> isLineTerminator CHR '' ''"
    by (simp_all add: isLineTerminator_def)
  show ?case using t IH sep by simp
qed

lemma join_tools_headerValue:
  assumes "ts \<noteq> []" and "list_all validTool ts"
  shows "headerValue (join '', '' ts) \<and> join '', '' ts \<noteq> []"
proof -
  have f: "join '', '' ts \<noteq> []" "hd (join '', '' ts) = hd (hd ts)"
    "last (join '', '' ts) = last (last ts)" "\<not> list_ex isLineTerminator (join '', '' ts)"
    using join_tools_facts[OF assms] by simp_all
  have "validTool (hd ts)" and "validTool (last ts)"
    using assms by (auto simp: list_all_iff)
  then have "\<not> isWhiteSpace (hd (hd ts))" and "\<not> isWhiteSpace (last (last ts))"
    using trim_fixed_iff[of "hd ts"] trim_fixed_iff[of "last ts"]
    by (auto simp: validTool_def headerValue_def)
  then have "trim (join '', '' ts) = join '', '' ts"
    using f by (intro trim_id) simp
  then show ?thesis using f by (simp add: headerValue_def)
qed

lemma parseTools_join:
  assumes "list_all validTool ts"
  shows "parseTools (if ts = [] then None else Some (join '', '' ts)) = ts"
proof (cases "ts = []")
  case True
  then show ?thesis by (simp add: parseTools_def)
next
  case False
  then show ?thesis
    using split_join_tools[OF False assms] join_tools_headerValue[OF False assms]
    by (simp add: parseTools_def)
qed

lemma key_facts:
  "trim ''description'' = ''description''" "trim ''argument-hint'' = ''argument-hint''"
  "trim ''name'' = ''name''" "trim ''tools'' = ''tools''" "trim ''model'' = ''model''"
  by (simp_all add: trim_def isWhiteSpace_def)

lemma validModel_headerValue: "validModel m \<Longrightarrow> headerValue m \<and> m \<noteq> []"
  by (auto simp: validModel_def headerValue_def trim_def isWhiteSpace_def isLineTerminator_def)


lemma command_roundtrip:
  assumes "validCommand c"
  shows "parseCommandMarkdown (commandToMarkdown c) (cmd_filePath c) = Some c"
proof -
  obtain n d h t p where c: "c = \<lparr> cmd_name = n, cmd_description = d, cmd_argumentHint = h,
      cmd_content = t, cmd_filePath = p \<rparr>" by (cases c) auto
  have d: "headerValue d" and t: "trim t = t" and n: "n = popReplaceMd p"
    and h: "\<And>x. h = Some x \<Longrightarrow> x \<noteq> [] \<and> headerValue x"
    using assms c by (auto simp: validCommand_def)
  let ?kvs = "(''description'', d) # (case h of None \<Rightarrow> [] | Some x \<Rightarrow> [(''argument-hint'', x)])"
  have enc: "commandToMarkdown c
      = join ''\<newline>'' ([''---''] @ map (\<lambda>(k, v). k @ '': '' @ v) ?kvs @ [''---'', []]) @ t"
    using c h by (cases h) (simp_all add: commandToMarkdown_def)
  have ok: "\<forall>(k, v) \<in> set ?kvs. CHR '':'' \<notin> set k \<and> k \<noteq> [] \<and> trim k = k \<and> headerValue v
           \<and> CHR ''\<newline>'' \<notin> set k \<and> hd k \<noteq> CHR ''-''"
    using d h by (cases h) (simp_all add: key_facts)
  obtain fm where m: "matchFrontmatter (commandToMarkdown c) = Some (fm, t)"
    and pf: "parseFrontmatter fm = foldl (\<lambda>m (k, v). m(k \<mapsto> v)) Map.empty ?kvs"
    unfolding enc using header_roundtrip[OF _ ok, of t] by auto
  have md: "parseFrontmatter fm ''description'' = Some d"
    and mh: "parseFrontmatter fm ''argument-hint'' = h"
    unfolding pf by (cases h; simp)+
  have od: "orElse (Some d) [] = d" by (simp add: orElse_def)
  show ?thesis
    using m md mh od t n c by (simp add: parseCommandMarkdown_def Let_def)
qed

lemma skill_header:
  assumes "nm \<noteq> []" and "headerValue nm" and "headerValue d" and "list_all validTool ts"
    and "validModel mo"
  shows "\<exists>fm. matchFrontmatter
           (join ''\<newline>''
              ([''---'', ''name: '' @ nm, ''description: '' @ d]
               @ (if length ts > 0 then [''tools: '' @ join '', '' ts] else [])
               @ (if mo \<noteq> ''inherit'' then [''model: '' @ mo] else [])
               @ [''---'', []]) @ t) = Some (fm, t)
         \<and> parseFrontmatter fm ''name'' = Some nm
         \<and> parseFrontmatter fm ''description'' = Some d
         \<and> parseFrontmatter fm ''tools'' = (if ts = [] then None else Some (join '', '' ts))
         \<and> parseFrontmatter fm ''model'' = (if mo = ''inherit'' then None else Some mo)"
proof -
  let ?kvs = "[(''name'', nm), (''description'', d)]
              @ (if ts = [] then [] else [(''tools'', join '', '' ts)])
              @ (if mo = ''inherit'' then [] else [(''model'', mo)])"
  have enc: "join ''\<newline>''
              ([''---'', ''name: '' @ nm, ''description: '' @ d]
               @ (if length ts > 0 then [''tools: '' @ join '', '' ts] else [])
               @ (if mo \<noteq> ''inherit'' then [''model: '' @ mo] else [])
               @ [''---'', []]) @ t
      = join ''\<newline>'' ([''---''] @ map (\<lambda>(k, v). k @ '': '' @ v) ?kvs @ [''---'', []]) @ t"
    by simp
  have tv: "ts \<noteq> [] \<Longrightarrow> headerValue (join '', '' ts)"
    using join_tools_headerValue[OF _ assms(4)] by simp
  have mv: "headerValue mo" using validModel_headerValue[OF assms(5)] by simp
  have ok: "\<forall>(k, v) \<in> set ?kvs. CHR '':'' \<notin> set k \<and> k \<noteq> [] \<and> trim k = k \<and> headerValue v
           \<and> CHR ''\<newline>'' \<notin> set k \<and> hd k \<noteq> CHR ''-''"
    using assms(2,3) tv mv by (simp add: key_facts)
  obtain fm where m: "matchFrontmatter (join ''\<newline>'' ([''---''] @ map (\<lambda>(k, v). k @ '': '' @ v) ?kvs
                        @ [''---'', []]) @ t) = Some (fm, t)"
    and pf: "parseFrontmatter fm = foldl (\<lambda>m (k, v). m(k \<mapsto> v)) Map.empty ?kvs"
    using header_roundtrip[OF _ ok, of t] by auto
  have "parseFrontmatter fm ''name'' = Some nm"
    and "parseFrontmatter fm ''description'' = Some d"
    and "parseFrontmatter fm ''tools'' = (if ts = [] then None else Some (join '', '' ts))"
    and "parseFrontmatter fm ''model'' = (if mo = ''inherit'' then None else Some mo)"
    unfolding pf by simp_all
  then show ?thesis using m unfolding enc by blast
qed

lemma skill_roundtrip:
  assumes "validSkill s"
  shows "parseSkillMarkdown (skillToMarkdown s) (skill_filePath s) = Some s"
proof -
  obtain nm d ts mo t p where s: "s = \<lparr> skill_name = nm, skill_description = d, skill_tools = ts,
      skill_model = mo, skill_content = t, skill_filePath = p \<rparr>" by (cases s) auto
  have v: "nm \<noteq> []" "headerValue nm" "headerValue d" "list_all validTool ts" "validModel mo"
    and t: "trim t = t"
    using assms s by (simp_all add: validSkill_def)
  have enc: "skillToMarkdown s = join ''\<newline>''
              ([''---'', ''name: '' @ nm, ''description: '' @ d]
               @ (if length ts > 0 then [''tools: '' @ join '', '' ts] else [])
               @ (if mo \<noteq> ''inherit'' then [''model: '' @ mo] else [])
               @ [''---'', []]) @ t"
    by (simp add: skillToMarkdown_def s)
  obtain fm where m: "matchFrontmatter (skillToMarkdown s) = Some (fm, t)"
    and f: "parseFrontmatter fm ''name'' = Some nm"
      "parseFrontmatter fm ''description'' = Some d"
      "parseFrontmatter fm ''tools'' = (if ts = [] then None else Some (join '', '' ts))"
      "parseFrontmatter fm ''model'' = (if mo = ''inherit'' then None else Some mo)"
    using skill_header[OF v, of t] unfolding enc by blast
  have o1: "orElse (Some nm) (sliceParent p) = nm" using v(1) by (simp add: orElse_def)
  have o2: "orElse (Some d) [] = d" by (simp add: orElse_def)
  have o3: "orElse (if mo = ''inherit'' then None else Some mo) ''inherit'' = mo"
    using validModel_headerValue[OF v(5)] by (simp add: orElse_def)
  have o4: "parseTools (if ts = [] then None else Some (join '', '' ts)) = ts"
    by (rule parseTools_join[OF v(4)])
  show ?thesis
    unfolding parseSkillMarkdown_def m using f o1 o2 o3 o4 t s
    by (simp add: Let_def del: split.simps join.simps)
qed

lemma agent_roundtrip:
  assumes "validAgent a"
  shows "parseAgentMarkdown (agentToMarkdown a) (agent_filePath a) = Some a"
proof -
  obtain nm d ts mo t p where s: "a = \<lparr> agent_name = nm, agent_description = d, agent_tools = ts,
      agent_model = mo, agent_content = t, agent_filePath = p \<rparr>" by (cases a) auto
  have v: "nm \<noteq> []" "headerValue nm" "headerValue d" "list_all validTool ts" "validModel mo"
    and t: "trim t = t"
    using assms s by (simp_all add: validAgent_def)
  have enc: "agentToMarkdown a = join ''\<newline>''
              ([''---'', ''name: '' @ nm, ''description: '' @ d]
               @ (if length ts > 0 then [''tools: '' @ join '', '' ts] else [])
               @ (if mo \<noteq> ''inherit'' then [''model: '' @ mo] else [])
               @ [''---'', []]) @ t"
    by (simp add: agentToMarkdown_def s)
  obtain fm where m: "matchFrontmatter (agentToMarkdown a) = Some (fm, t)"
    and f: "parseFrontmatter fm ''name'' = Some nm"
      "parseFrontmatter fm ''description'' = Some d"
      "parseFrontmatter fm ''tools'' = (if ts = [] then None else Some (join '', '' ts))"
      "parseFrontmatter fm ''model'' = (if mo = ''inherit'' then None else Some mo)"
    using skill_header[OF v, of t] unfolding enc by blast
  have o1: "orElse (Some nm) (popReplaceMd p) = nm" using v(1) by (simp add: orElse_def)
  have o2: "orElse (Some d) [] = d" by (simp add: orElse_def)
  have o3: "orElse (if mo = ''inherit'' then None else Some mo) ''inherit'' = mo"
    using validModel_headerValue[OF v(5)] by (simp add: orElse_def)
  have o4: "parseTools (if ts = [] then None else Some (join '', '' ts)) = ts"
    by (rule parseTools_join[OF v(4)])
  show ?thesis
    unfolding parseAgentMarkdown_def m using f o1 o2 o3 o4 t s
    by (simp add: Let_def del: split.simps join.simps)
qed


text \<open>
  Claim C2, as stated, fails: the decoder trims the content, so a record whose content starts
  or ends with white space does not come back. A Skill whose content ends with a newline
  decodes to the same Skill without that newline.
\<close>

theorem roundtrip_counterexample:
  "parseSkillMarkdown (skillToMarkdown newlineSkill) (skill_filePath newlineSkill)
     = Some (newlineSkill\<lparr> skill_content := ''# API\<newline>Use this.'' \<rparr>)
   \<and> parseSkillMarkdown (skillToMarkdown newlineSkill) (skill_filePath newlineSkill)
     \<noteq> Some newlineSkill"
  by (simp add: codec_eval newlineSkill_def exampleSkill_def)

text \<open>
  Claim C2, amended: decoding the encoding of a record, at the record's path, yields the
  record itself for every Command, Skill and Agent whose content has no white space at either
  end, whose header values (description, name, argument hint, tools, model) have no white
  space at either end and hold no line terminator, whose name (Skill, Agent) is not empty,
  whose tools are non-empty and hold no comma, whose argument hint is missing or non-empty,
  whose model is one of \<open>inherit\<close>, \<open>haiku\<close>, \<open>sonnet\<close>, \<open>opus\<close>, and, for a Command, whose
  name is the one its path gives. The model \<open>inherit\<close> is encoded with the key \<open>model\<close>
  left out, and only that model, and decodes back to \<open>inherit\<close>.
\<close>

theorem codec_roundtrip:
  "(validCommand c \<longrightarrow> parseCommandMarkdown (commandToMarkdown c) (cmd_filePath c) = Some c)
   \<and> (validSkill s \<longrightarrow>
        parseSkillMarkdown (skillToMarkdown s) (skill_filePath s) = Some s
        \<and> (\<exists>fm. matchFrontmatter (skillToMarkdown s) = Some (fm, skill_content s)
              \<and> (parseFrontmatter fm ''model'' = None \<longleftrightarrow> skill_model s = ''inherit'')))
   \<and> (validAgent a \<longrightarrow>
        parseAgentMarkdown (agentToMarkdown a) (agent_filePath a) = Some a
        \<and> (\<exists>fm. matchFrontmatter (agentToMarkdown a) = Some (fm, agent_content a)
              \<and> (parseFrontmatter fm ''model'' = None \<longleftrightarrow> agent_model a = ''inherit'')))"
proof (intro conjI impI)
  assume "validCommand c"
  then show "parseCommandMarkdown (commandToMarkdown c) (cmd_filePath c) = Some c"
    by (rule command_roundtrip)
next
  assume v: "validSkill s"
  then show "parseSkillMarkdown (skillToMarkdown s) (skill_filePath s) = Some s"
    by (rule skill_roundtrip)
  have "skill_name s \<noteq> []" "headerValue (skill_name s)" "headerValue (skill_description s)"
    "list_all validTool (skill_tools s)" "validModel (skill_model s)"
    using v by (simp_all add: validSkill_def)
  from skill_header[OF this, of "skill_content s"]
  show "\<exists>fm. matchFrontmatter (skillToMarkdown s) = Some (fm, skill_content s)
              \<and> (parseFrontmatter fm ''model'' = None \<longleftrightarrow> skill_model s = ''inherit'')"
    unfolding skillToMarkdown_def by (auto split: if_splits)
next
  assume v: "validAgent a"
  then show "parseAgentMarkdown (agentToMarkdown a) (agent_filePath a) = Some a"
    by (rule agent_roundtrip)
  have "agent_name a \<noteq> []" "headerValue (agent_name a)" "headerValue (agent_description a)"
    "list_all validTool (agent_tools a)" "validModel (agent_model a)"
    using v by (simp_all add: validAgent_def)
  from skill_header[OF this, of "agent_content a"]
  show "\<exists>fm. matchFrontmatter (agentToMarkdown a) = Some (fm, agent_content a)
              \<and> (parseFrontmatter fm ''model'' = None \<longleftrightarrow> agent_model a = ''inherit'')"
    unfolding agentToMarkdown_def by (auto split: if_splits)
qed

theorem codec_roundtrip_witness:
  "validSkill exampleSkill
   \<and> skillToMarkdown exampleSkill
       = ''---\<newline>name: api-docs\<newline>description: Docs: all endpoints\<newline>tools: Read, Edit\<newline>---\<newline># API\<newline>Use this.''
   \<and> parseSkillMarkdown (skillToMarkdown exampleSkill) (skill_filePath exampleSkill) = Some exampleSkill
   \<and> validCommand \<lparr> cmd_name = ''review'', cmd_description = ''Review a PR'',
                     cmd_argumentHint = Some ''<pr-number>'', cmd_content = ''Review $1.'',
                     cmd_filePath = ''/p/.claude/commands/review.md'' \<rparr>
   \<and> parseCommandMarkdown
         (commandToMarkdown \<lparr> cmd_name = ''review'', cmd_description = ''Review a PR'',
                     cmd_argumentHint = Some ''<pr-number>'', cmd_content = ''Review $1.'',
                     cmd_filePath = ''/p/.claude/commands/review.md'' \<rparr>)
         ''/p/.claude/commands/review.md''
       = Some \<lparr> cmd_name = ''review'', cmd_description = ''Review a PR'',
                     cmd_argumentHint = Some ''<pr-number>'', cmd_content = ''Review $1.'',
                     cmd_filePath = ''/p/.claude/commands/review.md'' \<rparr>"
proof -
  let ?c = "\<lparr> cmd_name = ''review'', cmd_description = ''Review a PR'',
                     cmd_argumentHint = Some ''<pr-number>'', cmd_content = ''Review $1.'',
                     cmd_filePath = ''/p/.claude/commands/review.md'' \<rparr>"
  have vs: "validSkill exampleSkill"
    by (simp add: validSkill_def validTool_def validModel_def headerValue_def trim_def
        isWhiteSpace_def isLineTerminator_def exampleSkill_def)
  have vc: "validCommand ?c"
    by (simp add: validCommand_def headerValue_def trim_def isWhiteSpace_def
        isLineTerminator_def popReplaceMd_def startsWith_def)
  have e: "skillToMarkdown exampleSkill
       = ''---\<newline>name: api-docs\<newline>description: Docs: all endpoints\<newline>tools: Read, Edit\<newline>---\<newline># API\<newline>Use this.''"
    by (simp add: skillToMarkdown_def exampleSkill_def)
  note t = codec_roundtrip[of ?c exampleSkill]
  have "parseSkillMarkdown (skillToMarkdown exampleSkill) (skill_filePath exampleSkill) = Some exampleSkill"
    using t vs by blast
  moreover have "parseCommandMarkdown (commandToMarkdown ?c) (cmd_filePath ?c) = Some ?c"
    using t vc by blast
  ultimately show ?thesis using vs vc e by simp
qed

end
